theory Spec2Isabelle
  imports Complex_Main "HOL-Library.Word"
begin

section \<open>Values, exceptions and external primitives\<close>

text \<open>
  The module \<^verbatim>\<open>golem/core/keysauth.py\<close> is embedded function by function.
  Python \<^verbatim>\<open>bytes\<close> are lists of 8-bit words, Python \<^verbatim>\<open>str\<close> is \<^typ>\<open>string\<close>,
  Python integers are \<^typ>\<open>int\<close>. A value annotated \<^verbatim>\<open>Union[bytes, str]\<close> is a
  \<open>bstr\<close>. Every \<^verbatim>\<open>raise\<close> is the \<open>Inl\<close> branch of a sum.
\<close>

type_synonym bytes = "8 word list"

datatype bstr = Bytes bytes | Str string

text \<open>
  The exception classes that occur. \<open>KeyboardInterrupt\<close> stands for the classes that
  derive from \<^verbatim>\<open>BaseException\<close> but not from \<^verbatim>\<open>Exception\<close>; \<open>OtherError\<close> for any
  further subclass of \<^verbatim>\<open>Exception\<close> a library may raise.
\<close>

datatype exn =
    ArithmeticError
  | AssertionError
  | ValueError
  | OverflowError
  | ZeroDivisionError
  | FileNotFoundError
  | PermissionError
  | IsADirectoryError
  | NotADirectoryError
  | FileExistsError
  | OtherError string
  | KeyboardInterrupt

fun is_Exception :: "exn \<Rightarrow> bool" where
  "is_Exception KeyboardInterrupt = False"
| "is_Exception _ = True"

text \<open>
  What the module imports and does not define: \<^verbatim>\<open>hashlib.sha256\<close>, \<^verbatim>\<open>sys.maxsize\<close>,
  \<^verbatim>\<open>Crypto.Random.random.randrange\<close> (which threads a generator state \<open>'g\<close>),
  \<^verbatim>\<open>golem.utils.decode_hex\<close> and \<^verbatim>\<open>encode_hex\<close>, the \<^verbatim>\<open>golem_messages.cryptography\<close>
  functions \<^verbatim>\<open>mk_privkey\<close>, \<^verbatim>\<open>privtopub\<close>, \<^verbatim>\<open>ecdsa_verify\<close> and the class \<^verbatim>\<open>ECCx\<close>
  (a context \<open>'e\<close>), \<^verbatim>\<open>math.log2\<close>, \<^verbatim>\<open>str\<close> of a float, and
  \<^verbatim>\<open>get_local_datadir('default')\<close>. They are parameters of the embedding, collected in
  one record; nothing is assumed of them beyond what a theorem states as a premise.
\<close>

record ('g, 'e) prims =
  sha256 :: "bytes \<Rightarrow> bytes"
  maxsize :: int
  randrange :: "int \<Rightarrow> int \<Rightarrow> 'g \<Rightarrow> int \<times> 'g"
  decode_hex :: "bstr \<Rightarrow> exn + bytes"
  encode_hex :: "bytes \<Rightarrow> string"
  mk_privkey :: "string \<Rightarrow> bytes"
  privtopub :: "bytes \<Rightarrow> exn + bytes"
  ecdsa_verify :: "bstr \<Rightarrow> bytes \<Rightarrow> bytes \<Rightarrow> exn + bool"
  eccx :: "bytes \<Rightarrow> exn + 'e"
  log2 :: "int \<Rightarrow> exn + rat"
  float_str :: "rat \<Rightarrow> string"
  local_datadir :: string

section \<open>Hashing and the difficulty predicate\<close>

text \<open>\<^verbatim>\<open>int.from_bytes(b, 'big')\<close> and \<^verbatim>\<open>str.encode()\<close> (a string is its UTF-8 bytes).\<close>

definition int_from_bytes_big :: "bytes \<Rightarrow> int" where
  "int_from_bytes_big bs = foldl (\<lambda>acc b. acc * 256 + uint b) 0 bs"

definition str_encode :: "string \<Rightarrow> bytes" where
  "str_encode s = map (\<lambda>c. of_nat (of_char c)) s"

text \<open>
  \<^verbatim>\<open>def sha2(seed): if isinstance(seed, str): seed = seed.encode();
  return int.from_bytes(sha256(seed).digest(), 'big')\<close>
\<close>

definition sha2 :: "('g, 'e) prims \<Rightarrow> bstr \<Rightarrow> int" where
  "sha2 P seed =
     int_from_bytes_big (sha256 P (case seed of Str s \<Rightarrow> str_encode s | Bytes b \<Rightarrow> b))"

text \<open>
  \<^verbatim>\<open>_count_max_hash(difficulty) = 2 << (256 - difficulty - 1)\<close>. Python raises
  \<^verbatim>\<open>ValueError\<close> for a negative shift count.
\<close>

definition count_max_hash :: "int \<Rightarrow> exn + int" where
  "count_max_hash difficulty =
     (if 256 - difficulty - 1 < 0 then Inl ValueError
      else Inr (push_bit (nat (256 - difficulty - 1)) 2))"

text \<open>
  \<^verbatim>\<open>is_pubkey_difficult(pub_key, difficulty)\<close>: a \<^verbatim>\<open>str\<close> is hex-decoded first, then
  \<^verbatim>\<open>sha2(pub_key) < _count_max_hash(difficulty)\<close>.
\<close>

definition is_pubkey_difficult :: "('g, 'e) prims \<Rightarrow> bstr \<Rightarrow> int \<Rightarrow> exn + bool" where
  "is_pubkey_difficult P pub_key difficulty =
     (case (case pub_key of Str s \<Rightarrow> decode_hex P (Str s) | Bytes b \<Rightarrow> Inr b) of
        Inl e \<Rightarrow> Inl e
      | Inr pk \<Rightarrow>
          (case count_max_hash difficulty of
             Inl e \<Rightarrow> Inl e
           | Inr m \<Rightarrow> Inr (sha2 P (Bytes pk) < m)))"

section \<open>Random numbers\<close>

text \<open>
  \<^verbatim>\<open>get_random(min_value=0, max_value=None)\<close>: the default maximum is \<^verbatim>\<open>sys.maxsize\<close>;
  \<^verbatim>\<open>min_value > max_value\<close> raises \<^verbatim>\<open>ArithmeticError\<close>; equal bounds return without a
  draw; otherwise \<^verbatim>\<open>randrange(min_value, max_value)\<close>.
\<close>

definition get_random :: "('g, 'e) prims \<Rightarrow> int \<Rightarrow> int option \<Rightarrow> 'g \<Rightarrow> (exn + int) \<times> 'g" where
  "get_random P min_value max_value g =
     (let max_value' = (case max_value of None \<Rightarrow> maxsize P | Some m \<Rightarrow> m) in
      if min_value > max_value' then (Inl ArithmeticError, g)
      else if min_value = max_value' then (Inr min_value, g)
      else (case randrange P min_value max_value' g of (r, g') \<Rightarrow> (Inr r, g')))"

text \<open>\<^verbatim>\<open>str\<close> of an integer, in decimal.\<close>

definition digit_char :: "int \<Rightarrow> char" where
  "digit_char d = char_of (48 + d)"

function str_digits :: "int \<Rightarrow> string" where
  "str_digits n =
     (if n < 10 then [digit_char n] else str_digits (n div 10) @ [digit_char (n mod 10)])"
  by pat_completeness auto
termination
  by (relation "measure nat") auto

declare str_digits.simps [simp del]

definition str_int :: "int \<Rightarrow> string" where
  "str_int i = (if i < 0 then CHR ''-'' # str_digits (- i) else str_digits i)"

text \<open>
  Python floats are IEEE 754 binary64 values. A finite double is represented by the
  rational number it denotes. \<open>round_double\<close> rounds a rational to the nearest double,
  ties to even: 53 significant bits, gradual underflow below \<open>2 ^ -1022\<close>, no upper
  bound on the exponent (the callers check for overflow). \<open>bit_length\<close> is
  \<^verbatim>\<open>int.bit_length\<close> on the positive integers.
\<close>

function bit_length :: "int \<Rightarrow> int" where
  "bit_length n = (if n \<le> 0 then 0 else 1 + bit_length (n div 2))"
  by pat_completeness auto
termination
  by (relation "measure nat") auto

declare bit_length.simps [simp del]

definition pow2 :: "int \<Rightarrow> rat" where
  "pow2 e = (if 0 \<le> e then 2 ^ nat e else 1 / 2 ^ nat (- e))"

definition round_half_even :: "rat \<Rightarrow> int" where
  "round_half_even x =
     (let f = \<lfloor>x\<rfloor>; d = x - of_int f in
      if d < 1 / 2 then f else if 1 / 2 < d then f + 1 else if even f then f else f + 1)"

definition floor_log2 :: "rat \<Rightarrow> int" where
  "floor_log2 a =
     (case quotient_of a of (p, q) \<Rightarrow>
        (let k = bit_length p - bit_length q in
         if pow2 k \<le> a then k else k - 1))"

definition round_double :: "rat \<Rightarrow> rat" where
  "round_double x =
     (if x = 0 then 0
      else (let a = \<bar>x\<bar>;
                e = max (floor_log2 a - 52) (- 1074);
                m = round_half_even (a / pow2 e)
            in sgn x * of_int m * pow2 e))"

text \<open>
  \<^verbatim>\<open>float(n)\<close> of an integer raises \<^verbatim>\<open>OverflowError\<close> when the rounded value is
  beyond the largest double; \<^verbatim>\<open>x / y\<close> on floats raises \<^verbatim>\<open>ZeroDivisionError\<close> for a
  zero divisor. A quotient that overflows to infinity is outside the model; in
  \<open>get_random_float\<close> the divisor is a power of ten, at least 1.
\<close>

definition float_of_int :: "int \<Rightarrow> exn + rat" where
  "float_of_int n =
     (let y = round_double (of_int n) in
      if 2 ^ 1024 \<le> \<bar>y\<bar> then Inl OverflowError else Inr y)"

definition float_div :: "rat \<Rightarrow> rat \<Rightarrow> exn + rat" where
  "float_div x y = (if y = 0 then Inl ZeroDivisionError else Inr (round_double (x / y)))"

text \<open>
  \<^verbatim>\<open>get_random_float()\<close>: \<^verbatim>\<open>result = get_random(min_value=2)\<close>, then
  \<^verbatim>\<open>float(result - 1) / float(10 ** len(str(result)))\<close>.
\<close>

definition get_random_float :: "('g, 'e) prims \<Rightarrow> 'g \<Rightarrow> (exn + rat) \<times> 'g" where
  "get_random_float P g =
     (case get_random P 2 None g of
        (Inl e, g') \<Rightarrow> (Inl e, g')
      | (Inr result, g') \<Rightarrow>
          (case float_of_int (result - 1) of
             Inl e \<Rightarrow> (Inl e, g')
           | Inr a \<Rightarrow>
               (case float_of_int (10 ^ length (str_int result)) of
                  Inl e \<Rightarrow> (Inl e, g')
                | Inr b \<Rightarrow>
                    (case float_div a b of
                       Inl e \<Rightarrow> (Inl e, g')
                     | Inr x \<Rightarrow> (Inr x, g')))))"

section \<open>The file system, paths and the clock\<close>

text \<open>
  The file system is a map from path strings to nodes: a readable file with its
  contents, a file the process may neither read nor overwrite, or a directory. The name
  space is flat: the directory that holds a path is taken to exist and to be writable,
  two different strings are two different files. An operation returns its result
  together with the file system it leaves, also when it raises.
\<close>

datatype node = File bytes | Protected bytes | Dir

type_synonym fs = "string \<Rightarrow> node option"

text \<open>\<^verbatim>\<open>with open(path, 'rb') as f: f.read()\<close>\<close>

definition open_rb :: "fs \<Rightarrow> string \<Rightarrow> exn + bytes" where
  "open_rb fs path =
     (case fs path of
        None \<Rightarrow> Inl FileNotFoundError
      | Some (File b) \<Rightarrow> Inr b
      | Some (Protected b) \<Rightarrow> Inl PermissionError
      | Some Dir \<Rightarrow> Inl IsADirectoryError)"

text \<open>\<^verbatim>\<open>with open(path, 'wb') as f: f.write(data)\<close>\<close>

definition open_wb :: "string \<Rightarrow> bytes \<Rightarrow> fs \<Rightarrow> (exn + unit) \<times> fs" where
  "open_wb path data fs =
     (case fs path of
        Some (Protected b) \<Rightarrow> (Inl PermissionError, fs)
      | Some Dir \<Rightarrow> (Inl IsADirectoryError, fs)
      | _ \<Rightarrow> (Inr (), fs(path \<mapsto> File data)))"

definition os_path_exists :: "fs \<Rightarrow> string \<Rightarrow> bool" where
  "os_path_exists fs path = (fs path \<noteq> None)"

definition os_path_isdir :: "fs \<Rightarrow> string \<Rightarrow> bool" where
  "os_path_isdir fs path = (fs path = Some Dir)"

text \<open>
  \<^verbatim>\<open>os.rename(src, dst)\<close> as on POSIX: an existing file at \<open>dst\<close> is replaced; a
  directory at \<open>dst\<close>, or a directory moved onto a file, is an error.
\<close>

definition os_rename :: "string \<Rightarrow> string \<Rightarrow> fs \<Rightarrow> (exn + unit) \<times> fs" where
  "os_rename src dst fs =
     (case fs src of
        None \<Rightarrow> (Inl FileNotFoundError, fs)
      | Some n \<Rightarrow>
          if src = dst then (Inr (), fs)
          else (case fs dst of
                  Some Dir \<Rightarrow> (Inl IsADirectoryError, fs)
                | Some _ \<Rightarrow>
                    if n = Dir then (Inl NotADirectoryError, fs)
                    else (Inr (), (fs(src := None))(dst \<mapsto> n))
                | None \<Rightarrow> (Inr (), (fs(src := None))(dst \<mapsto> n))))"

text \<open>\<^verbatim>\<open>os.makedirs(path)\<close>: an existing entry is \<^verbatim>\<open>FileExistsError\<close>.\<close>

definition os_makedirs :: "string \<Rightarrow> fs \<Rightarrow> (exn + unit) \<times> fs" where
  "os_makedirs path fs =
     (if fs path \<noteq> None then (Inl FileExistsError, fs) else (Inr (), fs(path \<mapsto> Dir)))"

text \<open>
  \<^verbatim>\<open>posixpath.split\<close>: the tail is what follows the last slash; trailing slashes are
  stripped from the head unless it consists of slashes only. \<^verbatim>\<open>posixpath.join\<close> of two
  components.
\<close>

definition os_path_split :: "string \<Rightarrow> string \<times> string" where
  "os_path_split p =
     (let tail = rev (takeWhile (\<lambda>c. c \<noteq> CHR ''/'') (rev p));
          head = take (length p - length tail) p
      in (if head \<noteq> [] \<and> \<not> list_all (\<lambda>c. c = CHR ''/'') head
          then rev (dropWhile (\<lambda>c. c = CHR ''/'') (rev head)) else head,
          tail))"

definition os_path_join :: "string \<Rightarrow> string \<Rightarrow> string" where
  "os_path_join a b =
     (if b \<noteq> [] \<and> hd b = CHR ''/'' then b
      else if a = [] \<or> last a = CHR ''/'' then a @ b
      else a @ ''/'' @ b)"

text \<open>
  \<^verbatim>\<open>datetime.now().strftime("%Y-%m-%d_%H-%M-%S_%f")\<close>: the clock reading is a
  parameter; the fields are zero-padded decimals.
\<close>

record datetime =
  dt_year :: int
  dt_month :: int
  dt_day :: int
  dt_hour :: int
  dt_minute :: int
  dt_second :: int
  dt_microsecond :: int

definition zfill :: "nat \<Rightarrow> string \<Rightarrow> string" where
  "zfill w s = replicate (w - length s) CHR ''0'' @ s"

definition strftime :: "datetime \<Rightarrow> string" where
  "strftime now =
     zfill 4 (str_int (dt_year now)) @ ''-'' @ zfill 2 (str_int (dt_month now)) @ ''-''
     @ zfill 2 (str_int (dt_day now)) @ ''_'' @ zfill 2 (str_int (dt_hour now)) @ ''-''
     @ zfill 2 (str_int (dt_minute now)) @ ''-'' @ zfill 2 (str_int (dt_second now)) @ ''_''
     @ zfill 6 (str_int (dt_microsecond now))"

section \<open>KeysAuth\<close>

text \<open>
  The attributes of an instance; \<open>self_x\<close> is \<^verbatim>\<open>self.x\<close> (\<open>self_private_key\<close> is
  \<^verbatim>\<open>self._private_key\<close>).
\<close>

record 'e keysauth =
  self_difficulty :: int
  self_private_key :: bytes
  self_private_key_path :: string
  self_public_key :: bytes
  self_key_id :: string
  self_ecc :: 'e

definition KEYS_SUBDIR :: string where "KEYS_SUBDIR = ''keys''"
definition PRIV_KEY_LEN :: nat where "PRIV_KEY_LEN = 32"
definition HEX_PUB_KEY_LEN :: nat where "HEX_PUB_KEY_LEN = 128"

text \<open>
  \<^verbatim>\<open>_get_or_create_keys_dir(datadir)\<close>: \<^verbatim>\<open>path = datadir or get_local_datadir('default')\<close>,
  then the \<^verbatim>\<open>keys\<close> subdirectory, created when it is not a directory yet.
\<close>

definition get_or_create_keys_dir ::
  "('g, 'e) prims \<Rightarrow> string \<Rightarrow> fs \<Rightarrow> (exn + string) \<times> fs" where
  "get_or_create_keys_dir P datadir fs =
     (let path = (if datadir \<noteq> [] then datadir else local_datadir P);
          keys_dir = os_path_join path KEYS_SUBDIR
      in if \<not> os_path_isdir fs keys_dir
         then (case os_makedirs keys_dir fs of
                 (Inl e, fs') \<Rightarrow> (Inl e, fs')
               | (Inr u, fs') \<Rightarrow> (Inr keys_dir, fs'))
         else (Inr keys_dir, fs))"

text \<open>
  \<^verbatim>\<open>_load_and_check_keys(private_key_path, difficulty)\<close>. Only \<^verbatim>\<open>FileNotFoundError\<close> is
  caught around the read. The two logger calls leave the result as it is and are not
  modelled.
\<close>

definition load_and_check_keys ::
  "('g, 'e) prims \<Rightarrow> fs \<Rightarrow> string \<Rightarrow> int \<Rightarrow> exn + (bytes \<times> bytes) option" where
  "load_and_check_keys P fs private_key_path d =
     (case open_rb fs private_key_path of
        Inl e \<Rightarrow> (if e = FileNotFoundError then Inr None else Inl e)
      | Inr priv_key \<Rightarrow>
          if \<not> length priv_key = PRIV_KEY_LEN then Inr None
          else (case privtopub P priv_key of
                  Inl e \<Rightarrow> Inl e
                | Inr pub_key \<Rightarrow>
                    (case is_pubkey_difficult P (Bytes pub_key) d of
                       Inl e \<Rightarrow> Inl e
                     | Inr ok \<Rightarrow>
                         if \<not> ok then Inr None else Inr (Some (priv_key, pub_key)))))"

text \<open>
  \<^verbatim>\<open>_save_private_key(key, key_path)\<close> with its inner \<^verbatim>\<open>backup_file\<close>: an existing entry
  is renamed to \<^verbatim>\<open>filename.replace('.', '_') + '_' + date + '.bak'\<close> in the same directory,
  then the key is written.
\<close>

definition backup_name :: "datetime \<Rightarrow> string \<Rightarrow> string" where
  "backup_name now path =
     (case os_path_split path of (dirname, filename) \<Rightarrow>
        (let date = strftime now;
             filename_bak = map (\<lambda>c. if c = CHR ''.'' then CHR ''_'' else c) filename
                            @ ''_'' @ date @ ''.bak''
         in os_path_join dirname filename_bak))"

definition backup_file :: "datetime \<Rightarrow> string \<Rightarrow> fs \<Rightarrow> (exn + unit) \<times> fs" where
  "backup_file now path fs =
     (if os_path_exists fs path then os_rename path (backup_name now path) fs
      else (Inr (), fs))"

definition save_private_key :: "datetime \<Rightarrow> bytes \<Rightarrow> string \<Rightarrow> fs \<Rightarrow> (exn + unit) \<times> fs" where
  "save_private_key now key key_path fs =
     (case backup_file now key_path fs of
        (Inl e, fs') \<Rightarrow> (Inl e, fs')
      | (Inr u, fs') \<Rightarrow> open_wb key_path key fs')"

text \<open>
  \<^verbatim>\<open>_generate_keys(difficulty)\<close>: \<^verbatim>\<open>while True\<close> with a \<^verbatim>\<open>break\<close> once the key is difficult
  enough. The loop has no bound, so the function is partial: \<open>None\<close> is a run that never
  returns.
\<close>

partial_function (option) generate_keys ::
  "('g, 'e) prims \<Rightarrow> int \<Rightarrow> 'g \<Rightarrow> ((exn + bytes \<times> bytes) \<times> 'g) option" where
  "generate_keys P d g =
     (case get_random_float P g of
        (Inl e, g') \<Rightarrow> Some (Inl e, g')
      | (Inr x, g') \<Rightarrow>
          (case privtopub P (mk_privkey P (float_str P x)) of
             Inl e \<Rightarrow> Some (Inl e, g')
           | Inr pub_key \<Rightarrow>
               (case is_pubkey_difficult P (Bytes pub_key) d of
                  Inl e \<Rightarrow> Some (Inl e, g')
                | Inr ok \<Rightarrow>
                    if ok then Some (Inr (mk_privkey P (float_str P x), pub_key), g')
                    else generate_keys P d g')))"

text \<open>
  \<^verbatim>\<open>KeysAuth.__init__(datadir, private_key_name, difficulty)\<close>: load, or else generate
  and save; then the attributes are set, \<^verbatim>\<open>ECCx(priv_key)\<close> last.
\<close>

definition set_attributes ::
  "('g, 'e) prims \<Rightarrow> int \<Rightarrow> string \<Rightarrow> bytes \<Rightarrow> bytes \<Rightarrow> exn + 'e keysauth" where
  "set_attributes P d path priv_key pub_key =
     (case eccx P priv_key of
        Inl e \<Rightarrow> Inl e
      | Inr c \<Rightarrow>
          Inr \<lparr> self_difficulty = d, self_private_key = priv_key,
                self_private_key_path = path, self_public_key = pub_key,
                self_key_id = encode_hex P pub_key, self_ecc = c \<rparr>)"

definition init ::
  "('g, 'e) prims \<Rightarrow> datetime \<Rightarrow> string \<Rightarrow> string \<Rightarrow> int \<Rightarrow> fs \<Rightarrow> 'g
     \<Rightarrow> ((exn + 'e keysauth) \<times> fs \<times> 'g) option" where
  "init P now datadir private_key_name d fs g =
     (case get_or_create_keys_dir P datadir fs of
        (Inl e, fs1) \<Rightarrow> Some (Inl e, fs1, g)
      | (Inr keys_dir, fs1) \<Rightarrow>
          (let path = os_path_join keys_dir private_key_name in
           case load_and_check_keys P fs1 path d of
             Inl e \<Rightarrow> Some (Inl e, fs1, g)
           | Inr (Some (priv_key, pub_key)) \<Rightarrow>
               Some (set_attributes P d path priv_key pub_key, fs1, g)
           | Inr None \<Rightarrow>
               (case generate_keys P d g of
                  None \<Rightarrow> None
                | Some (Inl e, g1) \<Rightarrow> Some (Inl e, fs1, g1)
                | Some (Inr (priv_key, pub_key), g1) \<Rightarrow>
                    (case save_private_key now priv_key path fs1 of
                       (Inl e, fs2) \<Rightarrow> Some (Inl e, fs2, g1)
                     | (Inr u, fs2) \<Rightarrow>
                         Some (set_attributes P d path priv_key pub_key, fs2, g1)))))"

text \<open>
  The directory and the path that \<open>init\<close> computes from its arguments, named for the
  statements below.
\<close>

definition keys_dir_of :: "('g, 'e) prims \<Rightarrow> string \<Rightarrow> string" where
  "keys_dir_of P datadir =
     os_path_join (if datadir \<noteq> [] then datadir else local_datadir P) KEYS_SUBDIR"

definition key_path_of :: "('g, 'e) prims \<Rightarrow> string \<Rightarrow> string \<Rightarrow> string" where
  "key_path_of P datadir private_key_name =
     os_path_join (keys_dir_of P datadir) private_key_name"

text \<open>\<^verbatim>\<open>is_difficult(self, difficulty)\<close>\<close>

definition is_difficult :: "('g, 'e) prims \<Rightarrow> 'e keysauth \<Rightarrow> int \<Rightarrow> exn + bool" where
  "is_difficult P self d = is_pubkey_difficult P (Bytes (self_public_key self)) d"

text \<open>
  \<^verbatim>\<open>get_difficulty(self, key_id=None)\<close>: \<^verbatim>\<open>if not key_id: return self.difficulty\<close>
  (\<^verbatim>\<open>None\<close> and the empty string are the falsy values of an optional string), else
  \<^verbatim>\<open>256 - math.log2(sha2(decode_hex(key_id)))\<close>. The first branch returns the stored
  integer, the second a float.
\<close>

datatype pynum = PyInt int | PyFloat rat

definition get_difficulty ::
  "('g, 'e) prims \<Rightarrow> 'e keysauth \<Rightarrow> string option \<Rightarrow> exn + pynum" where
  "get_difficulty P self key_id =
     (case key_id of
        None \<Rightarrow> Inr (PyInt (self_difficulty self))
      | Some k \<Rightarrow>
          if k = [] then Inr (PyInt (self_difficulty self))
          else (case decode_hex P (Str k) of
                  Inl e \<Rightarrow> Inl e
                | Inr b \<Rightarrow>
                    (case log2 P (sha2 P (Bytes b)) of
                       Inl e \<Rightarrow> Inl e
                     | Inr l \<Rightarrow> Inr (PyFloat (round_double (256 - l))))))"

text \<open>
  \<^verbatim>\<open>verify(self, sig, data, public_key=None)\<close>. The body of the \<^verbatim>\<open>try\<close> is \<open>verify_body\<close>;
  \<^verbatim>\<open>except AssertionError\<close> and \<^verbatim>\<open>except Exception\<close> log and fall through to
  \<^verbatim>\<open>return False\<close>. The log records written are returned with the result.
\<close>

datatype logrec = LogInfo string | LogError string exn

definition len_bstr :: "bstr \<Rightarrow> nat" where
  "len_bstr k = (case k of Bytes b \<Rightarrow> length b | Str s \<Rightarrow> length s)"

definition verify_body ::
  "('g, 'e) prims \<Rightarrow> 'e keysauth \<Rightarrow> bytes \<Rightarrow> bytes \<Rightarrow> bstr option \<Rightarrow> exn + bool" where
  "verify_body P self sig data pk =
     (let k = (case pk of None \<Rightarrow> Bytes (self_public_key self) | Some k \<Rightarrow> k) in
      if len_bstr k = HEX_PUB_KEY_LEN
      then (case decode_hex P k of
              Inl e \<Rightarrow> Inl e
            | Inr b \<Rightarrow> ecdsa_verify P (Bytes b) sig data)
      else ecdsa_verify P k sig data)"

definition verify ::
  "('g, 'e) prims \<Rightarrow> 'e keysauth \<Rightarrow> bytes \<Rightarrow> bytes \<Rightarrow> bstr option
     \<Rightarrow> (exn + bool) \<times> logrec list" where
  "verify P self sig data pk =
     (case verify_body P self sig data pk of
        Inr b \<Rightarrow> (Inr b, [])
      | Inl e \<Rightarrow>
          if e = AssertionError then (Inr False, [LogInfo ''Wrong key format''])
          else if is_Exception e then (Inr False, [LogError ''Cannot verify signature: {}'' e])
          else (Inl e, []))"

section \<open>Stand-ins for the external primitives\<close>

text \<open>
  Concrete primitives on which the theorems are instantiated: a toy digest that pads or
  cuts its input to 32 bytes, a generator that always returns the lower bound, and a
  decoder that knows one string. They are concrete instances, not models of the libraries.
\<close>

definition toy_prims :: "(nat, unit) prims" where
  "toy_prims = \<lparr>
     sha256 = (\<lambda>b. take 32 (b @ replicate 32 0)),
     maxsize = 2 ^ 63 - 1,
     randrange = (\<lambda>lo hi g. (lo, Suc g)),
     decode_hex = (\<lambda>x. if x = Str ''01'' \<or> x = Bytes [48, 49] then Inr [1] else Inl ValueError),
     encode_hex = (\<lambda>b. concat (map (\<lambda>_. ''00'') b)),
     mk_privkey = (\<lambda>s. take 32 (str_encode s @ replicate 32 7)),
     privtopub = (\<lambda>b. Inr (b @ b)),
     ecdsa_verify = (\<lambda>k s d. if k = Bytes (replicate 64 1) then Inr (s = d)
                              else if k = Bytes [] then Inl AssertionError
                              else Inl (OtherError ''InvalidSignature'')),
     eccx = (\<lambda>b. Inr ()),
     log2 = (\<lambda>n. if n \<le> 0 then Inl ValueError else Inr 0),
     float_str = (\<lambda>x. if x = 1 / 10 then ''0.1'' else ''0.5''),
     local_datadir = ''/home/golem'' \<rparr>"

text \<open>
  A second instance whose generator counts its draws and whose first two seeds differ:
  the key of the first seed starts with a non-zero byte, the key of the second with a
  zero byte.
\<close>

definition retry_prims :: "(nat, unit) prims" where
  "retry_prims = toy_prims \<lparr>
     randrange := (\<lambda>lo hi g. (lo + int g, Suc g)),
     float_str := (\<lambda>x. if x < 3 / 20 then ''0.1'' else [CHR 0x00]) \<rparr>"

text \<open>An instance as \<open>init\<close> would build it from the private key of 32 bytes \<open>1\<close>.\<close>

definition toy_self :: "unit keysauth" where
  "toy_self = \<lparr> self_difficulty = 0, self_private_key = replicate 32 1,
     self_private_key_path = ''/d/keys/k'', self_public_key = replicate 64 1,
     self_key_id = replicate 128 CHR ''0'', self_ecc = () \<rparr>"

text \<open>A clock reading, and a file system whose key file exists but cannot be read.\<close>

definition toy_now :: datetime where
  "toy_now = \<lparr> dt_year = 2018, dt_month = 3, dt_day = 7, dt_hour = 9, dt_minute = 5,
     dt_second = 1, dt_microsecond = 42 \<rparr>"

definition protected_fs :: fs where
  "protected_fs = [''/d/keys/k'' \<mapsto> Protected (replicate 32 1)]"

definition loadable_fs :: fs where
  "loadable_fs = [''/d/keys/k'' \<mapsto> File (replicate 32 1)]"

definition dotted_fs :: fs where
  "dotted_fs = [''/d/keys/key.peer'' \<mapsto> File (replicate 32 1)]"

section \<open>Properties\<close>

lemma count_max_hash_in_range:
  "0 \<le> d \<Longrightarrow> d \<le> 255 \<Longrightarrow> count_max_hash d = Inr (2 ^ nat (256 - d))"
proof -
  assume d: "0 \<le> d" "d \<le> 255"
  then have "nat (256 - d) = Suc (nat (256 - d - 1))" by simp
  then have "(2::int) ^ nat (256 - d) = 2 * 2 ^ nat (256 - d - 1)" by simp
  with d show ?thesis by (simp add: count_max_hash_def push_bit_eq_mult)
qed

text \<open>
  C1. For a difficulty \<open>d\<close> in \<open>[0, 255]\<close>, \<open>is_pubkey_difficult\<close> returns, for a key
  given as raw bytes, whether the big-endian integer of its SHA-256 digest is below
  \<open>2 ^ (256 - d)\<close>; for a key given as a hex string that decodes to the bytes \<open>k\<close>, the
  same test on the digest of \<open>k\<close>.
\<close>

theorem is_pubkey_difficult_threshold:
  "0 \<le> d \<and> d \<le> 255 \<longrightarrow>
     is_pubkey_difficult P (Bytes k) d
       = Inr (int_from_bytes_big (sha256 P k) < 2 ^ nat (256 - d)) \<and>
     (decode_hex P (Str s) = Inr k \<longrightarrow>
        is_pubkey_difficult P (Str s) d
          = Inr (int_from_bytes_big (sha256 P k) < 2 ^ nat (256 - d)))"
  by (simp add: is_pubkey_difficult_def sha2_def count_max_hash_in_range)

theorem is_pubkey_difficult_threshold_witness:
  "(0::int) \<le> 8 \<and> (8::int) \<le> 255 \<and> decode_hex toy_prims (Str ''01'') = Inr [1]
   \<and> is_pubkey_difficult toy_prims (Bytes [1]) 8 = Inr False
   \<and> is_pubkey_difficult toy_prims (Str ''01'') 8 = Inr False"
  using is_pubkey_difficult_threshold [of 8 toy_prims "[1]" "''01''"]
  by (simp add: toy_prims_def int_from_bytes_big_def eval_nat_numeral)

text \<open>
  C10. \<open>get_difficulty\<close> called with the empty string returns the stored difficulty
  of the instance, the same result as with the key id omitted, whatever \<open>decode_hex\<close>
  would do on the empty string: the decoder is not reached.
\<close>

theorem get_difficulty_empty_key_id:
  "get_difficulty P self (Some []) = Inr (PyInt (self_difficulty self)) \<and>
   get_difficulty P self (Some []) = get_difficulty P self None \<and>
   get_difficulty (P\<lparr>decode_hex := \<lambda>x. Inl ValueError\<rparr>) self (Some [])
     = Inr (PyInt (self_difficulty self))"
  by (simp add: get_difficulty_def)

text \<open>
  C6. When \<open>decode_hex\<close> and \<open>ecdsa_verify\<close> raise only instances of \<^verbatim>\<open>Exception\<close>,
  \<open>verify\<close> returns a boolean for every signature, message and optional key; whenever
  the body of its \<^verbatim>\<open>try\<close> raises, the result is \<open>False\<close> and one log record is written.
\<close>

theorem verify_never_propagates:
  "(\<forall>k e. decode_hex P k = Inl e \<longrightarrow> is_Exception e) \<and>
   (\<forall>k s m e. ecdsa_verify P k s m = Inl e \<longrightarrow> is_Exception e) \<longrightarrow>
     (\<exists>b. fst (verify P self sig data pk) = Inr b) \<and>
     (\<forall>e. verify_body P self sig data pk = Inl e \<longrightarrow>
        fst (verify P self sig data pk) = Inr False \<and>
        length (snd (verify P self sig data pk)) = 1)"
proof (intro impI)
  assume prims: "(\<forall>k e. decode_hex P k = Inl e \<longrightarrow> is_Exception e) \<and>
    (\<forall>k s m e. ecdsa_verify P k s m = Inl e \<longrightarrow> is_Exception e)"
  have raised: "is_Exception e" if "verify_body P self sig data pk = Inl e" for e
    using that prims
    by (auto simp: verify_body_def Let_def split: if_splits sum.splits)
  show "(\<exists>b. fst (verify P self sig data pk) = Inr b) \<and>
     (\<forall>e. verify_body P self sig data pk = Inl e \<longrightarrow>
        fst (verify P self sig data pk) = Inr False \<and>
        length (snd (verify P self sig data pk)) = 1)"
  proof (cases "verify_body P self sig data pk")
    case (Inl e)
    with raised [of e] show ?thesis by (auto simp: verify_def)
  next
    case (Inr b)
    then show ?thesis by (simp add: verify_def)
  qed
qed

theorem verify_never_propagates_witness:
  "fst (verify toy_prims toy_self [] [] (Some (Bytes []))) = Inr False \<and>
   snd (verify toy_prims toy_self [] [] (Some (Bytes []))) = [LogInfo ''Wrong key format''] \<and>
   fst (verify toy_prims toy_self [] [] (Some (Str (replicate 128 CHR ''z'')))) = Inr False \<and>
   fst (verify toy_prims toy_self [3] [3] (Some (Bytes (replicate 64 1)))) = Inr True"
proof -
  have d: "\<forall>k e. decode_hex toy_prims k = Inl e \<longrightarrow> is_Exception e"
    by (simp add: toy_prims_def)
  have v: "\<forall>k s m e. ecdsa_verify toy_prims k s m = Inl e \<longrightarrow> is_Exception e"
    by (simp add: toy_prims_def)
  have b1: "verify_body toy_prims toy_self [] [] (Some (Bytes [])) = Inl AssertionError"
    by (simp add: verify_body_def len_bstr_def HEX_PUB_KEY_LEN_def toy_prims_def)
  have ne: "replicate 128 CHR ''z'' \<noteq> ''01''"
  proof
    assume "replicate 128 CHR ''z'' = ''01''"
    then have "length (replicate 128 CHR ''z'') = length ''01''" by simp
    then show False by simp
  qed
  have b2: "verify_body toy_prims toy_self [] [] (Some (Str (replicate 128 CHR ''z''))) = Inl ValueError"
    by (simp add: verify_body_def len_bstr_def HEX_PUB_KEY_LEN_def toy_prims_def ne)
  have b3: "verify_body toy_prims toy_self [3] [3] (Some (Bytes (replicate 64 1))) = Inr True"
    by (simp add: verify_body_def len_bstr_def HEX_PUB_KEY_LEN_def toy_prims_def)
  from verify_never_propagates [of toy_prims toy_self "[]" "[]" "Some (Bytes [])"] d v b1
  have "fst (verify toy_prims toy_self [] [] (Some (Bytes []))) = Inr False" by blast
  moreover have "snd (verify toy_prims toy_self [] [] (Some (Bytes []))) = [LogInfo ''Wrong key format'']"
    by (simp add: verify_def b1)
  moreover from verify_never_propagates
      [of toy_prims toy_self "[]" "[]" "Some (Str (replicate 128 CHR ''z''))"] d v b2
  have "fst (verify toy_prims toy_self [] [] (Some (Str (replicate 128 CHR ''z'')))) = Inr False"
    by blast
  moreover have "fst (verify toy_prims toy_self [3] [3] (Some (Bytes (replicate 64 1)))) = Inr True"
    by (simp add: verify_def b3)
  ultimately show ?thesis by blast
qed

text \<open>
  C7. With a \<open>randrange\<close> that keeps its contract (a value of \<open>range(lo, hi)\<close> for
  \<open>lo < hi\<close>), \<open>get_random\<close> raises \<^verbatim>\<open>ArithmeticError\<close> exactly when the minimum
  exceeds the maximum, returns the minimum without a draw when the bounds are equal, and
  otherwise returns a value from the minimum up to, and never including, the maximum.
\<close>

theorem get_random_excludes_max:
  "(\<forall>lo hi g. lo < hi \<longrightarrow>
      lo \<le> fst (randrange P lo hi g) \<and> fst (randrange P lo hi g) < hi) \<longrightarrow>
   (fst (get_random P lo (Some hi) g) = Inl ArithmeticError \<longleftrightarrow> hi < lo) \<and>
   (lo = hi \<longrightarrow> get_random P lo (Some hi) g = (Inr lo, g)) \<and>
   (lo < hi \<longrightarrow>
      (\<exists>r. fst (get_random P lo (Some hi) g) = Inr r \<and> lo \<le> r \<and> r < hi) \<and>
      fst (get_random P lo (Some hi) g) \<noteq> Inr hi)"
proof (intro impI)
  assume c: "\<forall>lo hi g. lo < hi \<longrightarrow>
      lo \<le> fst (randrange P lo hi g) \<and> fst (randrange P lo hi g) < hi"
  obtain r g' where rg: "randrange P lo hi g = (r, g')"
    by (cases "randrange P lo hi g")
  from c have "lo < hi \<Longrightarrow> lo \<le> fst (randrange P lo hi g) \<and> fst (randrange P lo hi g) < hi"
    by blast
  with rg have bounds: "lo < hi \<Longrightarrow> lo \<le> r \<and> r < hi" by simp
  show "(fst (get_random P lo (Some hi) g) = Inl ArithmeticError \<longleftrightarrow> hi < lo) \<and>
   (lo = hi \<longrightarrow> get_random P lo (Some hi) g = (Inr lo, g)) \<and>
   (lo < hi \<longrightarrow>
      (\<exists>r. fst (get_random P lo (Some hi) g) = Inr r \<and> lo \<le> r \<and> r < hi) \<and>
      fst (get_random P lo (Some hi) g) \<noteq> Inr hi)"
    using bounds by (auto simp: get_random_def rg)
qed

theorem get_random_excludes_max_witness:
  "fst (get_random toy_prims 0 (Some 1) (0::nat)) = Inr 0 \<and>
   fst (get_random toy_prims 0 (Some 1) (0::nat)) \<noteq> Inr 1 \<and>
   get_random toy_prims 5 (Some 5) (0::nat) = (Inr 5, 0) \<and>
   fst (get_random toy_prims 30 (Some 10) (0::nat)) = Inl ArithmeticError"
proof -
  have c: "\<forall>lo hi g. lo < hi \<longrightarrow>
      lo \<le> fst (randrange toy_prims lo hi (g::nat)) \<and> fst (randrange toy_prims lo hi g) < hi"
    by (simp add: toy_prims_def)
  have "\<exists>r. fst (get_random toy_prims 0 (Some 1) (0::nat)) = Inr r \<and> 0 \<le> r \<and> r < 1"
    using get_random_excludes_max [of toy_prims 0 1 0] c by simp
  then have "fst (get_random toy_prims 0 (Some 1) (0::nat)) = Inr 0" by auto
  moreover have "get_random toy_prims 5 (Some 5) (0::nat) = (Inr 5, 0)"
    using get_random_excludes_max [of toy_prims 5 5 0] c by simp
  moreover have "fst (get_random toy_prims 30 (Some 10) (0::nat)) = Inl ArithmeticError"
    using get_random_excludes_max [of toy_prims 30 10 0] c by simp
  ultimately show ?thesis by simp
qed

subsection \<open>Digests and difficulty 0\<close>

lemma int_from_bytes_big_snoc:
  "int_from_bytes_big (bs @ [b]) = int_from_bytes_big bs * 256 + uint b"
  by (simp add: int_from_bytes_big_def)

lemma int_from_bytes_big_bound:
  "0 \<le> int_from_bytes_big bs \<and> int_from_bytes_big bs < 256 ^ length bs"
proof (induction bs rule: rev_induct)
  case Nil
  then show ?case by (simp add: int_from_bytes_big_def)
next
  case (snoc b bs)
  have "uint b < 256" using uint_bounded [of b] by simp
  moreover have "0 \<le> uint b" by simp
  ultimately show ?case using snoc by (simp add: int_from_bytes_big_snoc)
qed

lemma is_pubkey_difficult_bytes:
  "d \<le> 255 \<Longrightarrow> \<exists>ok. is_pubkey_difficult P (Bytes k) d = Inr ok"
  by (simp add: is_pubkey_difficult_def count_max_hash_def)

lemma difficulty_zero_accepts:
  assumes "length (sha256 P k) = 32"
  shows "is_pubkey_difficult P (Bytes k) 0 = Inr True"
proof -
  have "int_from_bytes_big (sha256 P k) < 256 ^ 32"
    using int_from_bytes_big_bound [of "sha256 P k"] assms by simp
  moreover have "(256::int) ^ 32 = 2 ^ 256" by simp
  ultimately have "int_from_bytes_big (sha256 P k) < 2 ^ 256" by simp
  then show ?thesis
    by (simp add: is_pubkey_difficult_def sha2_def count_max_hash_in_range)
qed

subsection \<open>Loading\<close>

lemma get_or_create_keys_dir_eq:
  "get_or_create_keys_dir P datadir fs =
     (if fs (keys_dir_of P datadir) = Some Dir then (Inr (keys_dir_of P datadir), fs)
      else if fs (keys_dir_of P datadir) \<noteq> None then (Inl FileExistsError, fs)
      else (Inr (keys_dir_of P datadir), fs(keys_dir_of P datadir \<mapsto> Dir)))"
  by (simp add: get_or_create_keys_dir_def keys_dir_of_def os_path_isdir_def os_makedirs_def
      Let_def)

lemma load_and_check_keys_absent:
  "fs path = None \<Longrightarrow> load_and_check_keys P fs path d = Inr None"
  by (simp add: load_and_check_keys_def open_rb_def)

lemma load_and_check_keys_propagates:
  "open_rb fs path = Inl e \<Longrightarrow> e \<noteq> FileNotFoundError \<Longrightarrow>
   load_and_check_keys P fs path d = Inl e"
  by (simp add: load_and_check_keys_def)

lemma load_and_check_keys_file:
  "fs path = Some (File b) \<Longrightarrow>
   load_and_check_keys P fs path d =
     (if length b \<noteq> 32 then Inr None
      else (case privtopub P b of
              Inl e \<Rightarrow> Inl e
            | Inr pk \<Rightarrow>
                (case is_pubkey_difficult P (Bytes pk) d of
                   Inl e \<Rightarrow> Inl e
                 | Inr ok \<Rightarrow> if ok then Inr (Some (b, pk)) else Inr None)))"
  by (simp add: load_and_check_keys_def open_rb_def PRIV_KEY_LEN_def split: sum.splits)

text \<open>
  C2, the claim as stated fails: a key file that exists, holds 32 bytes and cannot be
  read makes \<open>load_and_check_keys\<close> raise \<^verbatim>\<open>PermissionError\<close>; the result is neither
  "absent" nor a key pair.
\<close>

theorem load_and_check_keys_unreadable_counterexample:
  "\<not> (load_and_check_keys toy_prims protected_fs ''/d/keys/k'' 0 = Inr None \<or>
      (\<exists>kp. load_and_check_keys toy_prims protected_fs ''/d/keys/k'' 0 = Inr (Some kp)))"
proof -
  have "open_rb protected_fs ''/d/keys/k'' = Inl PermissionError"
    by (simp add: open_rb_def protected_fs_def)
  then have "load_and_check_keys toy_prims protected_fs ''/d/keys/k'' 0 = Inl PermissionError"
    by (simp add: load_and_check_keys_propagates)
  then show ?thesis by simp
qed

text \<open>
  C2, amended. For a difficulty of at most 255, a path that holds no entry or a readable
  file, and a \<open>privtopub\<close> that does not raise on the loaded bytes,
  \<open>load_and_check_keys\<close> returns "absent" in exactly three cases: no file at the path,
  a file whose length is not 32, or a public key that \<open>is_pubkey_difficult\<close> rejects.
  In every other case it returns the loaded 32 bytes with the public key derived from
  them, which \<open>is_pubkey_difficult\<close> accepts.
\<close>

theorem load_and_check_keys_cases:
  "d \<le> 255 \<and> (fs path = None \<or> (\<exists>b. fs path = Some (File b))) \<and>
   (\<forall>b. fs path = Some (File b) \<and> length b = 32 \<longrightarrow> (\<exists>pk. privtopub P b = Inr pk)) \<longrightarrow>
     (load_and_check_keys P fs path d = Inr None \<longleftrightarrow>
        fs path = None \<or>
        (\<exists>b. fs path = Some (File b) \<and>
           (length b \<noteq> 32 \<or>
            (\<exists>pk. privtopub P b = Inr pk \<and> is_pubkey_difficult P (Bytes pk) d = Inr False)))) \<and>
     (load_and_check_keys P fs path d \<noteq> Inr None \<longrightarrow>
        (\<exists>b pk. fs path = Some (File b) \<and> length b = 32 \<and> privtopub P b = Inr pk \<and>
           is_pubkey_difficult P (Bytes pk) d = Inr True \<and>
           load_and_check_keys P fs path d = Inr (Some (b, pk))))"
proof (intro impI, elim conjE)
  assume d: "d \<le> 255"
    and ent: "fs path = None \<or> (\<exists>b. fs path = Some (File b))"
    and priv: "\<forall>b. fs path = Some (File b) \<and> length b = 32 \<longrightarrow> (\<exists>pk. privtopub P b = Inr pk)"
  show "(load_and_check_keys P fs path d = Inr None \<longleftrightarrow>
        fs path = None \<or>
        (\<exists>b. fs path = Some (File b) \<and>
           (length b \<noteq> 32 \<or>
            (\<exists>pk. privtopub P b = Inr pk \<and> is_pubkey_difficult P (Bytes pk) d = Inr False)))) \<and>
     (load_and_check_keys P fs path d \<noteq> Inr None \<longrightarrow>
        (\<exists>b pk. fs path = Some (File b) \<and> length b = 32 \<and> privtopub P b = Inr pk \<and>
           is_pubkey_difficult P (Bytes pk) d = Inr True \<and>
           load_and_check_keys P fs path d = Inr (Some (b, pk))))"
  proof (cases "fs path")
    case None
    then show ?thesis by (simp add: load_and_check_keys_absent)
  next
    case (Some n)
    with ent obtain b where b: "fs path = Some (File b)" by auto
    show ?thesis
    proof (cases "length b = 32")
      case False
      with b show ?thesis by (simp add: load_and_check_keys_file)
    next
      case True
      with priv b obtain pk where pk: "privtopub P b = Inr pk" by blast
      from is_pubkey_difficult_bytes [OF d, of P pk]
      obtain ok where ok: "is_pubkey_difficult P (Bytes pk) d = Inr ok" by blast
      from b True pk ok show ?thesis by (simp add: load_and_check_keys_file)
    qed
  qed
qed

theorem load_and_check_keys_cases_witness:
  "load_and_check_keys toy_prims loadable_fs ''/d/keys/k'' 0
     = Inr (Some (replicate 32 1, replicate 32 1 @ replicate 32 1)) \<and>
   load_and_check_keys toy_prims loadable_fs ''/d/keys/other'' 0 = Inr None"
proof -
  have f: "loadable_fs ''/d/keys/k'' = Some (File (replicate 32 1))"
    by (simp add: loadable_fs_def)
  have p: "\<forall>b. loadable_fs ''/d/keys/k'' = Some (File b) \<and> length b = 32
             \<longrightarrow> (\<exists>pk. privtopub toy_prims b = Inr pk)"
    by (simp add: toy_prims_def)
  have pk: "privtopub toy_prims (replicate 32 1) = Inr (replicate 32 1 @ replicate 32 1)"
    by (simp add: toy_prims_def)
  have "length (sha256 toy_prims (replicate 32 1 @ replicate 32 1)) = 32"
    by (simp add: toy_prims_def)
  then have acc: "is_pubkey_difficult toy_prims (Bytes (replicate 32 1 @ replicate 32 1)) 0
      = Inr True"
    by (rule difficulty_zero_accepts)
  have "load_and_check_keys toy_prims loadable_fs ''/d/keys/k'' 0 \<noteq> Inr None"
    using load_and_check_keys_cases [of 0 loadable_fs "''/d/keys/k''" toy_prims] f p pk acc
    by auto
  then have "load_and_check_keys toy_prims loadable_fs ''/d/keys/k'' 0
     = Inr (Some (replicate 32 1, replicate 32 1 @ replicate 32 1))"
    using load_and_check_keys_cases [of 0 loadable_fs "''/d/keys/k''" toy_prims] f p pk
    by auto
  moreover have "load_and_check_keys toy_prims loadable_fs ''/d/keys/other'' 0 = Inr None"
    using load_and_check_keys_cases [of 0 loadable_fs "''/d/keys/other''" toy_prims]
    by (simp add: loadable_fs_def)
  ultimately show ?thesis by simp
qed

text \<open>
  C9. A read that raises anything but \<^verbatim>\<open>FileNotFoundError\<close> makes
  \<open>load_and_check_keys\<close> raise the same exception. When the key path holds an entry
  that cannot be read (a protected file or a directory), \<open>init\<close> ends with an
  exception, the generator state is the one it started with (no key was generated), and
  the entry at the key path is the one that was there (nothing was written over it).
\<close>

theorem unreadable_key_file_propagates:
  "(open_rb fs path = Inl e \<and> e \<noteq> FileNotFoundError \<longrightarrow>
      load_and_check_keys P fs path d = Inl e) \<and>
   ((\<exists>b. fs (key_path_of P datadir name) = Some (Protected b)) \<or>
    fs (key_path_of P datadir name) = Some Dir \<longrightarrow>
      (\<exists>x fs'. init P now datadir name d fs g = Some (Inl x, fs', g) \<and>
         (x = PermissionError \<or> x = IsADirectoryError \<or> x = FileExistsError) \<and>
         fs' (key_path_of P datadir name) = fs (key_path_of P datadir name)))"
proof (intro conjI impI)
  assume "open_rb fs path = Inl e \<and> e \<noteq> FileNotFoundError"
  then show "load_and_check_keys P fs path d = Inl e"
    by (simp add: load_and_check_keys_propagates)
next
  let ?kd = "keys_dir_of P datadir"
  let ?p = "key_path_of P datadir name"
  assume unreadable: "(\<exists>b. fs ?p = Some (Protected b)) \<or> fs ?p = Some Dir"
  have p: "os_path_join ?kd name = ?p" by (simp add: key_path_of_def)
  show "\<exists>x fs'. init P now datadir name d fs g = Some (Inl x, fs', g) \<and>
         (x = PermissionError \<or> x = IsADirectoryError \<or> x = FileExistsError) \<and>
         fs' ?p = fs ?p"
  proof (cases "fs ?kd = Some Dir")
    case True
    from unreadable obtain x where x: "open_rb fs ?p = Inl x"
      "x = PermissionError \<or> x = IsADirectoryError"
      by (auto simp: open_rb_def)
    then have "load_and_check_keys P fs ?p d = Inl x"
      by (auto simp: load_and_check_keys_propagates)
    with True x show ?thesis
      by (auto simp: init_def get_or_create_keys_dir_eq p)
  next
    case notdir: False
    show ?thesis
    proof (cases "fs ?kd")
      case (Some n)
      with notdir show ?thesis
        by (simp add: init_def get_or_create_keys_dir_eq)
    next
      case None
      with unreadable have ne: "?kd \<noteq> ?p" by auto
      let ?fs1 = "fs(?kd \<mapsto> Dir)"
      from ne have same: "?fs1 ?p = fs ?p" by simp
      from unreadable same obtain x where x: "open_rb ?fs1 ?p = Inl x"
        "x = PermissionError \<or> x = IsADirectoryError"
        by (auto simp: open_rb_def)
      then have "load_and_check_keys P ?fs1 ?p d = Inl x"
        by (auto simp: load_and_check_keys_propagates)
      with None x same show ?thesis
        by (auto simp: init_def get_or_create_keys_dir_eq p)
    qed
  qed
qed

theorem unreadable_key_file_propagates_witness:
  "load_and_check_keys toy_prims protected_fs ''/d/keys/k'' 0 = Inl PermissionError \<and>
   (\<exists>x fs'. init toy_prims toy_now ''/d'' ''k'' 0 protected_fs (0::nat) = Some (Inl x, fs', 0) \<and>
      fs' ''/d/keys/k'' = Some (Protected (replicate 32 1)))"
proof -
  have o: "open_rb protected_fs ''/d/keys/k'' = Inl PermissionError"
    by (simp add: open_rb_def protected_fs_def)
  have kp: "key_path_of toy_prims ''/d'' ''k'' = ''/d/keys/k''"
    by (simp add: key_path_of_def keys_dir_of_def os_path_join_def KEYS_SUBDIR_def)
  have e: "protected_fs ''/d/keys/k'' = Some (Protected (replicate 32 1))"
    by (simp add: protected_fs_def)
  note t = unreadable_key_file_propagates
    [of protected_fs "''/d/keys/k''" PermissionError toy_prims 0 "''/d''" "''k''" toy_now "0::nat"]
  from t o have "load_and_check_keys toy_prims protected_fs ''/d/keys/k'' 0 = Inl PermissionError"
    by simp
  moreover from t kp e
  have "\<exists>x fs'. init toy_prims toy_now ''/d'' ''k'' 0 protected_fs (0::nat) = Some (Inl x, fs', 0) \<and>
      fs' ''/d/keys/k'' = Some (Protected (replicate 32 1))"
    by auto
  ultimately show ?thesis by simp
qed

subsection \<open>Paths and the backup name\<close>

lemma digit_char_not_slash: "0 \<le> d \<Longrightarrow> d < 10 \<Longrightarrow> CHR ''/'' \<noteq> digit_char d"
proof
  assume d: "0 \<le> d" "d < 10" and eq: "CHR ''/'' = digit_char d"
  from eq [symmetric] have "of_char (digit_char d) = (of_char CHR ''/'' :: int)" by simp
  with d show False by (simp add: digit_char_def)
qed

lemma str_digits_no_slash: "0 \<le> n \<Longrightarrow> CHR ''/'' \<notin> set (str_digits n)"
proof (induction n rule: str_digits.induct)
  case (1 n)
  show ?case
  proof (cases "n < 10")
    case True
    with "1.prems" show ?thesis
      by (subst str_digits.simps) (simp add: digit_char_not_slash)
  next
    case False
    with "1.prems" have "0 \<le> n div 10" "0 \<le> n mod 10" "n mod 10 < 10" by simp_all
    with False "1.IH" show ?thesis
      by (subst str_digits.simps) (simp add: digit_char_not_slash)
  qed
qed

lemma str_int_no_slash: "CHR ''/'' \<notin> set (str_int i)"
  by (simp add: str_int_def str_digits_no_slash)

lemma zfill_no_slash: "CHR ''/'' \<notin> set s \<Longrightarrow> CHR ''/'' \<notin> set (zfill w s)"
  by (simp add: zfill_def)

lemma strftime_no_slash: "CHR ''/'' \<notin> set (strftime now)"
  by (simp add: strftime_def zfill_no_slash str_int_no_slash)

text \<open>The last component of a path: what follows its last slash.\<close>

lemma last_component_join:
  assumes "CHR ''/'' \<notin> set b"
  shows "rev (takeWhile (\<lambda>c. c \<noteq> CHR ''/'') (rev (os_path_join a b))) = b"
proof -
  have b: "takeWhile (\<lambda>c. c \<noteq> CHR ''/'') (rev b @ xs) = rev b @ takeWhile (\<lambda>c. c \<noteq> CHR ''/'') xs"
    for xs
    using assms by (intro takeWhile_append2) auto
  have nohd: "\<not> (b \<noteq> [] \<and> hd b = CHR ''/'')"
    using assms by (cases b) auto
  from nohd have j: "os_path_join a b =
      (if a = [] \<or> last a = CHR ''/'' then a @ b else a @ ''/'' @ b)"
    by (auto simp: os_path_join_def)
  show ?thesis
  proof (cases "a = [] \<or> last a = CHR ''/''")
    case True
    then have "takeWhile (\<lambda>c. c \<noteq> CHR ''/'') (rev a) = []"
      by (cases a rule: rev_cases) auto
    with True show ?thesis by (simp add: j b)
  next
    case False
    then show ?thesis by (simp add: j b)
  qed
qed

lemma last_component_split:
  "snd (os_path_split p) = rev (takeWhile (\<lambda>c. c \<noteq> CHR ''/'') (rev p))"
  by (simp add: os_path_split_def Let_def)

lemma split_tail_no_slash: "CHR ''/'' \<notin> set (snd (os_path_split p))"
proof
  assume "CHR ''/'' \<in> set (snd (os_path_split p))"
  then have "CHR ''/'' \<in> set (takeWhile (\<lambda>c. c \<noteq> CHR ''/'') (rev p))"
    by (simp add: last_component_split)
  then show False by (auto dest: set_takeWhileD)
qed

lemma backup_name_neq: "backup_name now path \<noteq> path"
proof
  assume eq: "backup_name now path = path"
  obtain dirname filename where sp: "os_path_split path = (dirname, filename)"
    by (cases "os_path_split path")
  let ?bak = "map (\<lambda>c. if c = CHR ''.'' then CHR ''_'' else c) filename
                @ ''_'' @ strftime now @ ''.bak''"
  have fn: "CHR ''/'' \<notin> set filename"
    using split_tail_no_slash [of path] sp by simp
  then have "CHR ''/'' \<notin> set (map (\<lambda>c. if c = CHR ''.'' then CHR ''_'' else c) filename)"
    by auto
  then have ns: "CHR ''/'' \<notin> set ?bak"
    using strftime_no_slash [of now] by simp
  have bn: "backup_name now path = os_path_join dirname ?bak"
    by (simp add: backup_name_def sp Let_def)
  have "rev (takeWhile (\<lambda>c. c \<noteq> CHR ''/'') (rev (backup_name now path))) = ?bak"
    unfolding bn using ns by (rule last_component_join)
  moreover have "rev (takeWhile (\<lambda>c. c \<noteq> CHR ''/'') (rev path)) = filename"
    using last_component_split [of path] sp by simp
  ultimately have "?bak = filename" using eq by simp
  then have "length ?bak = length filename" by simp
  then show False by simp
qed

subsection \<open>Saving\<close>

text \<open>
  C3. The backup name of a path is the directory of the path joined with the file name
  in which every dot is an underscore, followed by an underscore, the timestamp and
  \<open>.bak\<close>; it differs from the path. When the path holds no entry,
  \<open>save_private_key\<close> writes the key there and changes nothing else: no backup comes
  into being. When the path holds an entry, a successful save leaves that entry under
  the backup name and the key at the path, and changes nothing else; the save succeeds
  whenever the backup name is free; a save that raises leaves the file system as it was.
\<close>

theorem save_private_key_backs_up:
  "backup_name now path \<noteq> path \<and>
   backup_name now path =
     os_path_join (fst (os_path_split path))
       (map (\<lambda>c. if c = CHR ''.'' then CHR ''_'' else c) (snd (os_path_split path))
        @ ''_'' @ strftime now @ ''.bak'') \<and>
   (fs path = None \<longrightarrow>
      save_private_key now key path fs = (Inr (), fs(path \<mapsto> File key))) \<and>
   (\<forall>n. fs path = Some n \<longrightarrow>
      (fs (backup_name now path) = None \<longrightarrow>
         fst (save_private_key now key path fs) = Inr ()) \<and>
      (fst (save_private_key now key path fs) = Inr () \<longrightarrow>
         snd (save_private_key now key path fs)
           = fs(backup_name now path \<mapsto> n, path \<mapsto> File key)) \<and>
      (\<forall>e. fst (save_private_key now key path fs) = Inl e \<longrightarrow>
         snd (save_private_key now key path fs) = fs))"
proof (intro conjI allI impI)
  show "backup_name now path \<noteq> path" by (rule backup_name_neq)
next
  show "backup_name now path =
     os_path_join (fst (os_path_split path))
       (map (\<lambda>c. if c = CHR ''.'' then CHR ''_'' else c) (snd (os_path_split path))
        @ ''_'' @ strftime now @ ''.bak'')"
    by (simp add: backup_name_def Let_def split: prod.splits)
next
  assume "fs path = None"
  then show "save_private_key now key path fs = (Inr (), fs(path \<mapsto> File key))"
    by (simp add: save_private_key_def backup_file_def os_path_exists_def open_wb_def)
next
  fix n
  assume n: "fs path = Some n" and free: "fs (backup_name now path) = None"
  then show "fst (save_private_key now key path fs) = Inr ()"
    using backup_name_neq [of now path]
    by (simp add: save_private_key_def backup_file_def os_path_exists_def os_rename_def
        open_wb_def)
next
  fix n
  assume n: "fs path = Some n" and ok: "fst (save_private_key now key path fs) = Inr ()"
  have ne: "path \<noteq> backup_name now path" using backup_name_neq [of now path] by simp
  from n ok ne have "snd (save_private_key now key path fs)
      = ((fs(path := None))(backup_name now path \<mapsto> n))(path \<mapsto> File key)"
    by (auto simp: save_private_key_def backup_file_def os_path_exists_def os_rename_def
        open_wb_def split: option.splits node.splits if_splits)
  also have "\<dots> = fs(backup_name now path \<mapsto> n, path \<mapsto> File key)"
    using ne by auto
  finally show "snd (save_private_key now key path fs)
      = fs(backup_name now path \<mapsto> n, path \<mapsto> File key)" .
next
  fix n e
  assume n: "fs path = Some n" and err: "fst (save_private_key now key path fs) = Inl e"
  have ne: "path \<noteq> backup_name now path" using backup_name_neq [of now path] by simp
  from n err ne show "snd (save_private_key now key path fs) = fs"
    by (auto simp: save_private_key_def backup_file_def os_path_exists_def os_rename_def
        open_wb_def split: option.splits node.splits if_splits)
qed

theorem save_private_key_backs_up_witness:
  "backup_name toy_now ''/d/keys/key.peer''
     = ''/d/keys/key_peer_2018-03-07_09-05-01_000042.bak'' \<and>
   save_private_key toy_now (replicate 32 2) ''/d/keys/key.peer'' dotted_fs
     = (Inr (), dotted_fs(''/d/keys/key_peer_2018-03-07_09-05-01_000042.bak''
                            \<mapsto> File (replicate 32 1),
                          ''/d/keys/key.peer'' \<mapsto> File (replicate 32 2))) \<and>
   save_private_key toy_now (replicate 32 2) ''/d/keys/new'' dotted_fs
     = (Inr (), dotted_fs(''/d/keys/new'' \<mapsto> File (replicate 32 2)))"
proof -
  have bn: "backup_name toy_now ''/d/keys/key.peer''
      = ''/d/keys/key_peer_2018-03-07_09-05-01_000042.bak''"
    by code_simp
  have old: "dotted_fs ''/d/keys/key.peer'' = Some (File (replicate 32 1))"
    by (simp add: dotted_fs_def)
  have free: "dotted_fs (backup_name toy_now ''/d/keys/key.peer'') = None"
    by (simp add: bn dotted_fs_def)
  have new: "dotted_fs ''/d/keys/new'' = None"
    by (simp add: dotted_fs_def)
  note t = save_private_key_backs_up
    [of toy_now "''/d/keys/key.peer''" dotted_fs "replicate 32 2"]
  from t old free
  have ok: "fst (save_private_key toy_now (replicate 32 2) ''/d/keys/key.peer'' dotted_fs) = Inr ()"
    by blast
  with t old
  have "snd (save_private_key toy_now (replicate 32 2) ''/d/keys/key.peer'' dotted_fs)
      = dotted_fs(backup_name toy_now ''/d/keys/key.peer'' \<mapsto> File (replicate 32 1),
                  ''/d/keys/key.peer'' \<mapsto> File (replicate 32 2))"
    by blast
  with ok have "save_private_key toy_now (replicate 32 2) ''/d/keys/key.peer'' dotted_fs
      = (Inr (), dotted_fs(''/d/keys/key_peer_2018-03-07_09-05-01_000042.bak''
                            \<mapsto> File (replicate 32 1),
                          ''/d/keys/key.peer'' \<mapsto> File (replicate 32 2)))"
    unfolding bn by (simp add: prod_eq_iff)
  moreover from save_private_key_backs_up [of toy_now "''/d/keys/new''" dotted_fs "replicate 32 2"] new
  have "save_private_key toy_now (replicate 32 2) ''/d/keys/new'' dotted_fs
      = (Inr (), dotted_fs(''/d/keys/new'' \<mapsto> File (replicate 32 2)))"
    by blast
  ultimately show ?thesis using bn by simp
qed

subsection \<open>Generation\<close>

lemma generate_keys_returns:
  fixes P :: "('g, 'e) prims"
  assumes "generate_keys P d g = Some r"
  shows "\<forall>priv_key pub_key. fst r = Inr (priv_key, pub_key) \<longrightarrow>
           is_pubkey_difficult P (Bytes pub_key) d = Inr True \<and>
           privtopub P priv_key = Inr pub_key"
proof -
  define Q :: "(('g, 'e) prims \<times> int) \<times> 'g \<Rightarrow> (exn + bytes \<times> bytes) \<times> 'g \<Rightarrow> bool"
    where "Q = (\<lambda>x r. \<forall>priv_key pub_key. fst r = Inr (priv_key, pub_key) \<longrightarrow>
           is_pubkey_difficult (fst (fst x)) (Bytes pub_key) (snd (fst x)) = Inr True \<and>
           privtopub (fst (fst x)) priv_key = Inr pub_key)"
  have "Q ((P, d), g) r"
  proof (rule generate_keys.raw_induct [where Pa = Q, OF _ assms])
    fix gk :: "('g, 'e) prims \<Rightarrow> int \<Rightarrow> 'g \<Rightarrow> ((exn + bytes \<times> bytes) \<times> 'g) option"
      and P d g y
    assume IH: "\<And>P d g y. gk P d g = Some y \<Longrightarrow> Q ((P, d), g) y"
      and step: "(case get_random_float P g of
          (Inl e, g') \<Rightarrow> Some (Inl e, g')
        | (Inr x, g') \<Rightarrow>
            (case privtopub P (mk_privkey P (float_str P x)) of
               Inl e \<Rightarrow> Some (Inl e, g')
             | Inr pub_key \<Rightarrow>
                 (case is_pubkey_difficult P (Bytes pub_key) d of
                    Inl e \<Rightarrow> Some (Inl e, g')
                  | Inr ok \<Rightarrow>
                      if ok then Some (Inr (mk_privkey P (float_str P x), pub_key), g')
                      else gk P d g'))) = Some y"
    obtain fr g1 where f: "get_random_float P g = (fr, g1)"
      by (cases "get_random_float P g")
    show "Q ((P, d), g) y"
    proof (cases fr)
      case (Inl e)
      with f step show ?thesis by (auto simp: Q_def)
    next
      case x: (Inr x)
      show ?thesis
      proof (cases "privtopub P (mk_privkey P (float_str P x))")
        case (Inl e)
        with f x step show ?thesis by (auto simp: Q_def)
      next
        case pk: (Inr pub_key)
        show ?thesis
        proof (cases "is_pubkey_difficult P (Bytes pub_key) d")
          case (Inl e)
          with f x pk step show ?thesis by (auto simp: Q_def)
        next
          case (Inr ok)
          show ?thesis
          proof (cases ok)
            case True
            with f x pk Inr step show ?thesis by (auto simp: Q_def)
          next
            case False
            with f x pk Inr step have "gk P d g1 = Some y" by simp
            then have "Q ((P, d), g1) y" by (rule IH)
            then show ?thesis by (simp add: Q_def)
          qed
        qed
      qed
    qed
  qed
  then show ?thesis by (simp add: Q_def)
qed

lemma generate_keys_sound:
  "generate_keys P d g = Some (Inr (priv_key, pub_key), g') \<Longrightarrow>
   is_pubkey_difficult P (Bytes pub_key) d = Inr True \<and> privtopub P priv_key = Inr pub_key"
  using generate_keys_returns [of P d g "(Inr (priv_key, pub_key), g')"] by simp

lemma generate_keys_zero:
  assumes "\<forall>b. length (sha256 P b) = 32"
  shows "generate_keys P 0 g =
     (case get_random_float P g of
        (Inl e, g') \<Rightarrow> Some (Inl e, g')
      | (Inr x, g') \<Rightarrow>
          (case privtopub P (mk_privkey P (float_str P x)) of
             Inl e \<Rightarrow> Some (Inl e, g')
           | Inr pub_key \<Rightarrow> Some (Inr (mk_privkey P (float_str P x), pub_key), g')))"
  using assms
  by (subst generate_keys.simps)
     (simp add: difficulty_zero_accepts split: prod.splits sum.splits)

text \<open>The first draw of the stand-in generator: \<open>r = 2\<close>, the float \<open>0.1\<close>.\<close>

lemma toy_get_random_float:
  "get_random_float toy_prims (0::nat) = (Inr (3602879701896397 / 36028797018963968), 1)"
  by code_simp

lemma toy_float_str:
  "float_str toy_prims (3602879701896397 / 36028797018963968) = ''0.5''"
  by code_simp

lemma generate_keys_accept:
  "get_random_float P g = (Inr x, g1) \<Longrightarrow>
   privtopub P (mk_privkey P (float_str P x)) = Inr pub_key \<Longrightarrow>
   is_pubkey_difficult P (Bytes pub_key) d = Inr True \<Longrightarrow>
   generate_keys P d g = Some (Inr (mk_privkey P (float_str P x), pub_key), g1)"
  by (subst generate_keys.simps) simp

lemma generate_keys_retry:
  "get_random_float P g = (Inr x, g1) \<Longrightarrow>
   privtopub P (mk_privkey P (float_str P x)) = Inr pub_key \<Longrightarrow>
   is_pubkey_difficult P (Bytes pub_key) d = Inr False \<Longrightarrow>
   generate_keys P d g = generate_keys P d g1"
  by (subst generate_keys.simps) simp

text \<open>The first two draws of the counting generator: the floats \<open>0.1\<close> and \<open>0.2\<close>.\<close>

lemma retry_first_draw:
  "get_random_float retry_prims (0::nat) = (Inr (3602879701896397 / 36028797018963968), 1)"
  by code_simp

lemma retry_second_draw:
  "get_random_float retry_prims (1::nat) = (Inr (3602879701896397 / 18014398509481984), 2)"
  by code_simp

lemma retry_first_seed:
  "float_str retry_prims (3602879701896397 / 36028797018963968) = ''0.1''"
  by code_simp

lemma retry_second_seed:
  "float_str retry_prims (3602879701896397 / 18014398509481984) = [CHR 0x00]"
  by code_simp

lemma retry_privtopub: "privtopub retry_prims b = Inr (b @ b)"
  by (simp add: retry_prims_def toy_prims_def)

lemma retry_first_rejected:
  "is_pubkey_difficult retry_prims
     (Bytes (mk_privkey retry_prims ''0.1'' @ mk_privkey retry_prims ''0.1'')) 8 = Inr False"
  by code_simp

lemma retry_second_accepted:
  "is_pubkey_difficult retry_prims
     (Bytes (mk_privkey retry_prims [CHR 0x00] @ mk_privkey retry_prims [CHR 0x00])) 8 = Inr True"
  by code_simp

text \<open>
  C4. Every key pair that \<open>generate_keys\<close> returns passes \<open>is_pubkey_difficult\<close> at
  the requested difficulty and has its public key derived from its private key. One pass
  of the loop draws a seed and derives a key pair: when the public key passes, that pair
  is returned with the generator state after the draw; when it fails, the function goes
  on as \<open>generate_keys\<close> from the generator state after the draw, that is, it draws
  again. With a digest of 32 bytes, \<open>generate_keys\<close> at difficulty 0 returns after the
  first pass of its loop: it always returns, and when the first draw and the derivation
  of the public key succeed, the result is the pair of that first draw and the generator
  state after that one draw.
\<close>

theorem generate_keys_difficult_enough:
  fixes P :: "('g, 'e) prims"
  shows
  "(\<forall>priv_key pub_key g'. generate_keys P d g = Some (Inr (priv_key, pub_key), g') \<longrightarrow>
      is_pubkey_difficult P (Bytes pub_key) d = Inr True \<and>
      privtopub P priv_key = Inr pub_key) \<and>
   (\<forall>x g1 pub_key.
      get_random_float P g = (Inr x, g1) \<and>
      privtopub P (mk_privkey P (float_str P x)) = Inr pub_key \<longrightarrow>
        (is_pubkey_difficult P (Bytes pub_key) d = Inr True \<longrightarrow>
           generate_keys P d g = Some (Inr (mk_privkey P (float_str P x), pub_key), g1)) \<and>
        (is_pubkey_difficult P (Bytes pub_key) d = Inr False \<longrightarrow>
           generate_keys P d g = generate_keys P d g1)) \<and>
   ((\<forall>b. length (sha256 P b) = 32) \<longrightarrow>
      (\<exists>r. generate_keys P 0 g = Some r) \<and>
      (\<forall>x g1 pub_key.
         get_random_float P g = (Inr x, g1) \<and>
         privtopub P (mk_privkey P (float_str P x)) = Inr pub_key \<longrightarrow>
           generate_keys P 0 g
             = Some (Inr (mk_privkey P (float_str P x), pub_key), g1)))"
proof (intro conjI)
  show "\<forall>priv_key pub_key g'. generate_keys P d g = Some (Inr (priv_key, pub_key), g') \<longrightarrow>
      is_pubkey_difficult P (Bytes pub_key) d = Inr True \<and>
      privtopub P priv_key = Inr pub_key"
    using generate_keys_sound [of P d g] by blast
next
  show "\<forall>x g1 pub_key.
      get_random_float P g = (Inr x, g1) \<and>
      privtopub P (mk_privkey P (float_str P x)) = Inr pub_key \<longrightarrow>
        (is_pubkey_difficult P (Bytes pub_key) d = Inr True \<longrightarrow>
           generate_keys P d g = Some (Inr (mk_privkey P (float_str P x), pub_key), g1)) \<and>
        (is_pubkey_difficult P (Bytes pub_key) d = Inr False \<longrightarrow>
           generate_keys P d g = generate_keys P d g1)"
  proof (intro allI impI conjI)
    fix x g1 pub_key
    assume a: "get_random_float P g = (Inr x, g1) \<and>
      privtopub P (mk_privkey P (float_str P x)) = Inr pub_key"
      and ok: "is_pubkey_difficult P (Bytes pub_key) d = Inr True"
    from a ok show "generate_keys P d g
        = Some (Inr (mk_privkey P (float_str P x), pub_key), g1)"
      by (simp add: generate_keys_accept)
  next
    fix x g1 pub_key
    assume a: "get_random_float P g = (Inr x, g1) \<and>
      privtopub P (mk_privkey P (float_str P x)) = Inr pub_key"
      and no: "is_pubkey_difficult P (Bytes pub_key) d = Inr False"
    from a no show "generate_keys P d g = generate_keys P d g1"
      by (auto intro: generate_keys_retry)
  qed
next
  show "(\<forall>b. length (sha256 P b) = 32) \<longrightarrow>
      (\<exists>r. generate_keys P 0 g = Some r) \<and>
      (\<forall>x g1 pub_key.
         get_random_float P g = (Inr x, g1) \<and>
         privtopub P (mk_privkey P (float_str P x)) = Inr pub_key \<longrightarrow>
           generate_keys P 0 g
             = Some (Inr (mk_privkey P (float_str P x), pub_key), g1))"
  proof
    assume h: "\<forall>b. length (sha256 P b) = 32"
    have "\<exists>r. generate_keys P 0 g = Some r"
      using h by (simp add: generate_keys_zero split: prod.splits sum.splits)
    moreover have "\<forall>x g1 pub_key.
         get_random_float P g = (Inr x, g1) \<and>
         privtopub P (mk_privkey P (float_str P x)) = Inr pub_key \<longrightarrow>
           generate_keys P 0 g
             = Some (Inr (mk_privkey P (float_str P x), pub_key), g1)"
      using h by (simp add: generate_keys_zero)
    ultimately show "(\<exists>r. generate_keys P 0 g = Some r) \<and>
      (\<forall>x g1 pub_key.
         get_random_float P g = (Inr x, g1) \<and>
         privtopub P (mk_privkey P (float_str P x)) = Inr pub_key \<longrightarrow>
           generate_keys P 0 g
             = Some (Inr (mk_privkey P (float_str P x), pub_key), g1))"
      by blast
  qed
qed

theorem generate_keys_difficult_enough_witness:
  "generate_keys retry_prims 8 (0::nat) = generate_keys retry_prims 8 (1::nat) \<and>
   generate_keys retry_prims 8 (0::nat)
     = Some (Inr (mk_privkey retry_prims [CHR 0x00],
                  mk_privkey retry_prims [CHR 0x00] @ mk_privkey retry_prims [CHR 0x00]), 2) \<and>
   generate_keys toy_prims 0 (0::nat)
     = Some (Inr (mk_privkey toy_prims ''0.5'',
                  mk_privkey toy_prims ''0.5'' @ mk_privkey toy_prims ''0.5''), 1) \<and>
   is_pubkey_difficult toy_prims
     (Bytes (mk_privkey toy_prims ''0.5'' @ mk_privkey toy_prims ''0.5'')) 0 = Inr True"
proof -
  have p1: "privtopub retry_prims
      (mk_privkey retry_prims (float_str retry_prims (3602879701896397 / 36028797018963968)))
      = Inr (mk_privkey retry_prims ''0.1'' @ mk_privkey retry_prims ''0.1'')"
    by (simp only: retry_first_seed retry_privtopub)
  have p2: "privtopub retry_prims
      (mk_privkey retry_prims (float_str retry_prims (3602879701896397 / 18014398509481984)))
      = Inr (mk_privkey retry_prims [CHR 0x00] @ mk_privkey retry_prims [CHR 0x00])"
    by (simp only: retry_second_seed retry_privtopub)
  from generate_keys_difficult_enough [of retry_prims 8 "0::nat"]
    retry_first_draw p1 retry_first_rejected
  have again: "generate_keys retry_prims 8 (0::nat) = generate_keys retry_prims 8 (1::nat)"
    by blast
  from generate_keys_difficult_enough [of retry_prims 8 "1::nat"]
    retry_second_draw p2 retry_second_accepted
  have "generate_keys retry_prims 8 (1::nat)
     = Some (Inr (mk_privkey retry_prims
                    (float_str retry_prims (3602879701896397 / 18014398509481984)),
                  mk_privkey retry_prims [CHR 0x00] @ mk_privkey retry_prims [CHR 0x00]), 2)"
    by blast
  then have second: "generate_keys retry_prims 8 (1::nat)
     = Some (Inr (mk_privkey retry_prims [CHR 0x00],
                  mk_privkey retry_prims [CHR 0x00] @ mk_privkey retry_prims [CHR 0x00]), 2)"
    by (simp only: retry_second_seed)
  have h: "\<forall>b. length (sha256 toy_prims b) = 32"
    by (auto simp: toy_prims_def)
  note f = toy_get_random_float and s = toy_float_str
  have p: "privtopub toy_prims (mk_privkey toy_prims ''0.5'')
      = Inr (mk_privkey toy_prims ''0.5'' @ mk_privkey toy_prims ''0.5'')"
    by (simp add: toy_prims_def)
  note t = generate_keys_difficult_enough [of toy_prims 0 "0::nat"]
  from t h f s p have g: "generate_keys toy_prims 0 (0::nat)
     = Some (Inr (mk_privkey toy_prims ''0.5'',
                  mk_privkey toy_prims ''0.5'' @ mk_privkey toy_prims ''0.5''), 1)"
    by (metis (no_types, lifting))
  with t have "is_pubkey_difficult toy_prims
     (Bytes (mk_privkey toy_prims ''0.5'' @ mk_privkey toy_prims ''0.5'')) 0 = Inr True"
    by blast
  with again second g show ?thesis by simp
qed

subsection \<open>Construction\<close>

lemma save_private_key_fresh:
  "fs path = None \<Longrightarrow> save_private_key now key path fs = (Inr (), fs(path \<mapsto> File key))"
  by (simp add: save_private_key_def backup_file_def os_path_exists_def open_wb_def)

lemma key_path_not_keys_dir:
  assumes "CHR ''/'' \<notin> set name"
  shows "key_path_of P datadir name \<noteq> keys_dir_of P datadir"
proof -
  let ?dd = "if datadir \<noteq> [] then datadir else local_datadir P"
  have kd: "keys_dir_of P datadir = ?dd @ ''keys'' \<or> keys_dir_of P datadir = ?dd @ ''/keys''"
    by (simp add: keys_dir_of_def os_path_join_def KEYS_SUBDIR_def)
  then have "keys_dir_of P datadir \<noteq> [] \<and> last (keys_dir_of P datadir) = CHR ''s''"
    by auto
  moreover have "\<not> (name \<noteq> [] \<and> hd name = CHR ''/'')"
    using assms by (cases name) auto
  ultimately have "key_path_of P datadir name = keys_dir_of P datadir @ ''/'' @ name"
    by (auto simp: key_path_of_def os_path_join_def)
  then have "length (key_path_of P datadir name) \<noteq> length (keys_dir_of P datadir)"
    by simp
  then show ?thesis by auto
qed

text \<open>
  C5. Let the first draw of the generator yield the float \<open>x\<close>, the private key made
  from it have 32 bytes, \<open>privtopub\<close> return for it a public key \<open>pk\<close> of 64 bytes
  whose digest has 32 bytes and whose hex encoding has two hex digits per byte, and
  \<open>ECCx\<close> accept the private key. Let the key file name be a plain file name: no slash,
  not empty, not \<open>.\<close> and not \<open>..\<close>. In a data directory whose \<open>keys\<close> directory is
  missing or holds no entry for the key file, \<open>init\<close> at difficulty 0 returns an
  instance after one draw; the file system it leaves is the old one plus the \<open>keys\<close>
  directory and the key file, which holds the 32 bytes of the private key; the key id has
  128 hex digits. A second \<open>init\<close> on that file system, at any time and generator
  state, returns the same instance and leaves the file system and the generator as they
  are.
\<close>

theorem init_creates_then_reloads:
  fixes P :: "('g, 'e) prims"
  shows
  "get_random_float P g = (Inr x, gn) \<and>
   length (mk_privkey P (float_str P x)) = 32 \<and>
   privtopub P (mk_privkey P (float_str P x)) = Inr pk \<and>
   length pk = 64 \<and>
   length (sha256 P pk) = 32 \<and>
   length (encode_hex P pk) = 2 * length pk \<and>
   (\<forall>c \<in> set (encode_hex P pk). c \<in> set ''0123456789abcdef'') \<and>
   eccx P (mk_privkey P (float_str P x)) = Inr ctx \<and>
   CHR ''/'' \<notin> set name \<and> name \<noteq> [] \<and> name \<noteq> ''.'' \<and> name \<noteq> ''..'' \<and>
   (fs (keys_dir_of P datadir) = None \<or> fs (keys_dir_of P datadir) = Some Dir) \<and>
   fs (key_path_of P datadir name) = None \<longrightarrow>
     (\<exists>ka. init P now datadir name 0 fs g
             = Some (Inr ka,
                     fs(keys_dir_of P datadir \<mapsto> Dir,
                        key_path_of P datadir name \<mapsto> File (self_private_key ka)),
                     gn) \<and>
           self_private_key ka = mk_privkey P (float_str P x) \<and>
           self_public_key ka = pk \<and>
           privtopub P (self_private_key ka) = Inr (self_public_key ka) \<and>
           length (self_private_key ka) = 32 \<and>
           self_key_id ka = encode_hex P (self_public_key ka) \<and>
           length (self_key_id ka) = 128 \<and>
           (\<forall>c \<in> set (self_key_id ka). c \<in> set ''0123456789abcdef'') \<and>
           (\<forall>now' g'.
              init P now' datadir name 0
                (fs(keys_dir_of P datadir \<mapsto> Dir,
                    key_path_of P datadir name \<mapsto> File (self_private_key ka))) g'
              = Some (Inr ka,
                      fs(keys_dir_of P datadir \<mapsto> Dir,
                         key_path_of P datadir name \<mapsto> File (self_private_key ka)),
                      g')))"
proof (intro impI, elim conjE)
  let ?kd = "keys_dir_of P datadir"
  let ?p = "key_path_of P datadir name"
  let ?priv = "mk_privkey P (float_str P x)"
  assume draw: "get_random_float P g = (Inr x, gn)"
    and len: "length ?priv = 32"
    and pk: "privtopub P ?priv = Inr pk"
    and pk_len: "length pk = 64"
    and sha: "length (sha256 P pk) = 32"
    and hex_len: "length (encode_hex P pk) = 2 * length pk"
    and hex: "\<forall>c \<in> set (encode_hex P pk). c \<in> set ''0123456789abcdef''"
    and ctx: "eccx P ?priv = Inr ctx"
    and name: "CHR ''/'' \<notin> set name"
    and dir: "fs ?kd = None \<or> fs ?kd = Some Dir"
    and fresh: "fs ?p = None"
  have ne: "?p \<noteq> ?kd" using name by (rule key_path_not_keys_dir)
  have join: "os_path_join ?kd name = ?p" by (simp add: key_path_of_def)
  have accepted: "is_pubkey_difficult P (Bytes pk) 0 = Inr True"
    using sha by (rule difficulty_zero_accepts)
  define ka where "ka = \<lparr> self_difficulty = 0, self_private_key = ?priv,
      self_private_key_path = ?p, self_public_key = pk,
      self_key_id = encode_hex P pk, self_ecc = ctx \<rparr>"
  have attrs: "set_attributes P 0 ?p ?priv pk = Inr ka"
    by (simp add: set_attributes_def ctx ka_def)
  let ?fs1 = "fs(?kd \<mapsto> Dir)"
  let ?fs2 = "fs(?kd \<mapsto> Dir, ?p \<mapsto> File ?priv)"
  have dir1: "get_or_create_keys_dir P datadir fs = (Inr ?kd, ?fs1)"
  proof (cases "fs ?kd = Some Dir")
    case True
    then have "?fs1 = fs" by auto
    with True show ?thesis by (simp add: get_or_create_keys_dir_eq)
  next
    case False
    with dir show ?thesis by (simp add: get_or_create_keys_dir_eq)
  qed
  from ne fresh have "?fs1 ?p = None" by simp
  then have load1: "load_and_check_keys P ?fs1 ?p 0 = Inr None"
    and save1: "save_private_key now ?priv ?p ?fs1 = (Inr (), ?fs2)"
    by (simp_all add: load_and_check_keys_absent save_private_key_fresh)
  have gen: "generate_keys P 0 g = Some (Inr (?priv, pk), gn)"
    using draw pk accepted by (rule generate_keys_accept)
  have first: "init P now datadir name 0 fs g = Some (Inr ka, ?fs2, gn)"
    by (simp add: init_def dir1 join load1 gen save1 attrs)
  have again: "init P now' datadir name 0 ?fs2 g' = Some (Inr ka, ?fs2, g')" for now' g'
  proof -
    from ne have "?fs2 ?kd = Some Dir" by simp
    then have dir2: "get_or_create_keys_dir P datadir ?fs2 = (Inr ?kd, ?fs2)"
      by (simp add: get_or_create_keys_dir_eq)
    have stored: "?fs2 ?p = Some (File ?priv)" by simp
    with len pk accepted have "load_and_check_keys P ?fs2 ?p 0 = Inr (Some (?priv, pk))"
      by (simp add: load_and_check_keys_file)
    then show ?thesis by (simp add: init_def dir2 join attrs)
  qed
  have id_len: "length (self_key_id ka) = 128"
    using hex_len pk_len by (simp add: ka_def)
  have id_hex: "\<forall>c \<in> set (self_key_id ka). c \<in> set ''0123456789abcdef''"
    using hex by (simp add: ka_def)
  have fields: "self_private_key ka = ?priv" "self_public_key ka = pk"
    "self_key_id ka = encode_hex P pk"
    by (simp_all add: ka_def)
  show "\<exists>ka. init P now datadir name 0 fs g
             = Some (Inr ka,
                     fs(keys_dir_of P datadir \<mapsto> Dir,
                        key_path_of P datadir name \<mapsto> File (self_private_key ka)),
                     gn) \<and>
           self_private_key ka = mk_privkey P (float_str P x) \<and>
           self_public_key ka = pk \<and>
           privtopub P (self_private_key ka) = Inr (self_public_key ka) \<and>
           length (self_private_key ka) = 32 \<and>
           self_key_id ka = encode_hex P (self_public_key ka) \<and>
           length (self_key_id ka) = 128 \<and>
           (\<forall>c \<in> set (self_key_id ka). c \<in> set ''0123456789abcdef'') \<and>
           (\<forall>now' g'.
              init P now' datadir name 0
                (fs(keys_dir_of P datadir \<mapsto> Dir,
                    key_path_of P datadir name \<mapsto> File (self_private_key ka))) g'
              = Some (Inr ka,
                      fs(keys_dir_of P datadir \<mapsto> Dir,
                         key_path_of P datadir name \<mapsto> File (self_private_key ka)),
                      g'))"
  proof (intro exI [of _ ka] conjI)
    show "init P now datadir name 0 fs g
        = Some (Inr ka, fs(?kd \<mapsto> Dir, ?p \<mapsto> File (self_private_key ka)), gn)"
      using first by (simp add: fields)
    show "self_private_key ka = ?priv" by (simp add: fields)
    show "self_public_key ka = pk" by (simp add: fields)
    show "privtopub P (self_private_key ka) = Inr (self_public_key ka)"
      using pk by (simp add: fields)
    show "length (self_private_key ka) = 32" using len by (simp add: fields)
    show "self_key_id ka = encode_hex P (self_public_key ka)" by (simp add: fields)
    show "length (self_key_id ka) = 128" by (rule id_len)
    show "\<forall>c \<in> set (self_key_id ka). c \<in> set ''0123456789abcdef''" by (rule id_hex)
    show "\<forall>now' g'. init P now' datadir name 0
            (fs(?kd \<mapsto> Dir, ?p \<mapsto> File (self_private_key ka))) g'
          = Some (Inr ka, fs(?kd \<mapsto> Dir, ?p \<mapsto> File (self_private_key ka)), g')"
      using again by (simp add: fields)
  qed
qed

lemma toy_encode_hex:
  "length (encode_hex toy_prims b) = 2 * length b \<and>
   (\<forall>c \<in> set (encode_hex toy_prims b). c \<in> set ''0123456789abcdef'')"
  by (induction b) (simp_all add: toy_prims_def)

theorem init_creates_then_reloads_witness:
  "\<exists>ka. init toy_prims toy_now ''/d'' ''k'' 0 Map.empty (0::nat)
          = Some (Inr ka,
                  [''/d/keys'' \<mapsto> Dir, ''/d/keys/k'' \<mapsto> File (mk_privkey toy_prims ''0.5'')],
                  1) \<and>
        self_public_key ka = mk_privkey toy_prims ''0.5'' @ mk_privkey toy_prims ''0.5'' \<and>
        length (self_private_key ka) = 32 \<and>
        length (self_key_id ka) = 128 \<and>
        init toy_prims toy_now ''/d'' ''k'' 0
          [''/d/keys'' \<mapsto> Dir, ''/d/keys/k'' \<mapsto> File (mk_privkey toy_prims ''0.5'')] (7::nat)
          = Some (Inr ka,
                  [''/d/keys'' \<mapsto> Dir, ''/d/keys/k'' \<mapsto> File (mk_privkey toy_prims ''0.5'')],
                  7)"
proof -
  let ?x = "3602879701896397 / 36028797018963968 :: rat"
  let ?pk = "mk_privkey toy_prims ''0.5'' @ mk_privkey toy_prims ''0.5''"
  have len: "length (mk_privkey toy_prims (float_str toy_prims ?x)) = 32"
    by (auto simp: toy_prims_def)
  have pub: "privtopub toy_prims (mk_privkey toy_prims (float_str toy_prims ?x)) = Inr ?pk"
    by (simp only: toy_float_str) (simp add: toy_prims_def)
  have pk_len: "length ?pk = 64"
    by (auto simp: toy_prims_def)
  have sha: "length (sha256 toy_prims ?pk) = 32"
    by (auto simp: toy_prims_def)
  have hex_len: "length (encode_hex toy_prims ?pk) = 2 * length ?pk"
    using toy_encode_hex [of ?pk] by blast
  have hex: "\<forall>c \<in> set (encode_hex toy_prims ?pk). c \<in> set ''0123456789abcdef''"
    using toy_encode_hex [of ?pk] by blast
  have ctx: "eccx toy_prims (mk_privkey toy_prims (float_str toy_prims ?x)) = Inr ()"
    by (simp add: toy_prims_def)
  have name: "CHR ''/'' \<notin> set ''k''" "''k'' \<noteq> []" "''k'' \<noteq> ''.''" "''k'' \<noteq> ''..''"
    by simp_all
  have kd: "keys_dir_of toy_prims ''/d'' = ''/d/keys''"
    by (simp add: keys_dir_of_def os_path_join_def KEYS_SUBDIR_def)
  have kp: "key_path_of toy_prims ''/d'' ''k'' = ''/d/keys/k''"
    by (simp add: key_path_of_def kd os_path_join_def)
  have dir: "Map.empty (keys_dir_of toy_prims ''/d'') = (None :: node option) \<or>
      Map.empty (keys_dir_of toy_prims ''/d'') = Some Dir"
    by simp
  have fresh: "Map.empty (key_path_of toy_prims ''/d'' ''k'') = (None :: node option)"
    by simp
  from init_creates_then_reloads
    [where P = toy_prims and g = "0::nat" and x = ?x and gn = 1 and pk = ?pk and ctx = "()"
       and name = "''k''" and fs = Map.empty and datadir = "''/d''" and now = toy_now]
    toy_get_random_float len pub pk_len sha hex_len hex ctx name dir fresh
  obtain ka where
    first: "init toy_prims toy_now ''/d'' ''k'' 0 Map.empty (0::nat)
      = Some (Inr ka,
              [keys_dir_of toy_prims ''/d'' \<mapsto> Dir,
               key_path_of toy_prims ''/d'' ''k'' \<mapsto> File (self_private_key ka)], 1)"
    and priv: "self_private_key ka = mk_privkey toy_prims (float_str toy_prims ?x)"
    and pubk: "self_public_key ka = ?pk"
    and lens: "length (self_private_key ka) = 32" "length (self_key_id ka) = 128"
    and again: "\<forall>now' g'. init toy_prims now' ''/d'' ''k'' 0
          [keys_dir_of toy_prims ''/d'' \<mapsto> Dir,
           key_path_of toy_prims ''/d'' ''k'' \<mapsto> File (self_private_key ka)] g'
        = Some (Inr ka,
                [keys_dir_of toy_prims ''/d'' \<mapsto> Dir,
                 key_path_of toy_prims ''/d'' ''k'' \<mapsto> File (self_private_key ka)], g')"
    by blast
  from priv have priv': "self_private_key ka = mk_privkey toy_prims ''0.5''"
    by (simp only: toy_float_str)
  from first have "init toy_prims toy_now ''/d'' ''k'' 0 Map.empty (0::nat)
          = Some (Inr ka,
                  [''/d/keys'' \<mapsto> Dir, ''/d/keys/k'' \<mapsto> File (mk_privkey toy_prims ''0.5'')],
                  1)"
    by (simp only: kd kp priv')
  moreover from again have "init toy_prims toy_now ''/d'' ''k'' 0
          [''/d/keys'' \<mapsto> Dir, ''/d/keys/k'' \<mapsto> File (mk_privkey toy_prims ''0.5'')] (7::nat)
          = Some (Inr ka,
                  [''/d/keys'' \<mapsto> Dir, ''/d/keys/k'' \<mapsto> File (mk_privkey toy_prims ''0.5'')],
                  7)"
    by (simp only: kd kp priv')
  ultimately show ?thesis using lens pubk by blast
qed

subsection \<open>The random float\<close>

lemma str_digits_bound: "0 \<le> n \<Longrightarrow> n < 10 ^ length (str_digits n)"
proof (induction n rule: str_digits.induct)
  case (1 n)
  show ?case
  proof (cases "n < 10")
    case True
    then show ?thesis by (subst str_digits.simps) simp
  next
    case False
    with "1.prems" have "0 \<le> n div 10" by simp
    with False "1.IH" have "n div 10 < 10 ^ length (str_digits (n div 10))" by simp
    then have "n div 10 + 1 \<le> 10 ^ length (str_digits (n div 10))" by simp
    then have "10 * (n div 10) + 10 \<le> 10 * 10 ^ length (str_digits (n div 10))" by simp
    moreover have "n = 10 * (n div 10) + n mod 10" by simp
    moreover have "n mod 10 < 10" by simp
    ultimately have "n < 10 * 10 ^ length (str_digits (n div 10))" by linarith
    with False show ?thesis by (subst str_digits.simps) simp
  qed
qed

lemma float_of_int_near_1e17:
  "float_of_int 99999999999999998 = Inr 100000000000000000"
  by code_simp

lemma float_of_int_1e17:
  "float_of_int 100000000000000000 = Inr 100000000000000000"
  by code_simp

lemma float_div_1e17:
  "float_div 100000000000000000 100000000000000000 = Inr 1"
  by code_simp

lemma digits_17_nines: "length (str_int 99999999999999999) = 17"
  by code_simp

text \<open>
  C8. On a 64-bit platform (\<^verbatim>\<open>sys.maxsize\<close> is \<open>2 ^ 63 - 1\<close>), when the generator
  draws \<open>r = 99999999999999999\<close>, \<open>get_random_float\<close> returns the float \<open>1.0\<close>:
  \<^verbatim>\<open>float(r - 1)\<close> rounds to \<open>10 ^ 17\<close>, which is also \<^verbatim>\<open>float(10 ** 17)\<close>. The exact
  quotient \<open>(r - 1) / 10 ^ digit_count(r)\<close> does lie strictly between 0 and 1 for every
  \<open>r \<ge> 2\<close>.
\<close>

theorem get_random_float_reaches_one:
  "(maxsize P = 2 ^ 63 - 1 \<and> fst (randrange P 2 (2 ^ 63 - 1) g) = 99999999999999999 \<longrightarrow>
      fst (get_random_float P g) = Inr 1) \<and>
   (2 \<le> r \<longrightarrow>
      0 < (of_int (r - 1) / 10 ^ length (str_int r) :: rat) \<and>
      (of_int (r - 1) / 10 ^ length (str_int r) :: rat) < 1)"
proof (intro conjI impI)
  assume a: "maxsize P = 2 ^ 63 - 1 \<and> fst (randrange P 2 (2 ^ 63 - 1) g) = 99999999999999999"
  obtain r' g' where rg: "randrange P 2 9223372036854775807 g = (r', g')"
    by (cases "randrange P 2 9223372036854775807 g")
  with a have r': "r' = 99999999999999999" by simp
  from a have "get_random P 2 None g = (Inr 99999999999999999, g')"
    by (simp add: get_random_def rg r')
  then show "fst (get_random_float P g) = Inr 1"
    by (simp add: get_random_float_def float_of_int_near_1e17 digits_17_nines
        float_of_int_1e17 float_div_1e17)
next
  assume r: "2 \<le> r"
  then have "r < 10 ^ length (str_int r)"
    by (simp add: str_int_def str_digits_bound)
  with r show "0 < (of_int (r - 1) / 10 ^ length (str_int r) :: rat)"
    by simp
next
  assume r: "2 \<le> r"
  then have "r < 10 ^ length (str_int r)"
    by (simp add: str_int_def str_digits_bound)
  then have "r - 1 < 10 ^ length (str_int r)" by simp
  then have "(of_int (r - 1) :: rat) < of_int (10 ^ length (str_int r))"
    by (simp only: of_int_less_iff)
  then show "(of_int (r - 1) / 10 ^ length (str_int r) :: rat) < 1"
    by simp
qed

theorem get_random_float_reaches_one_witness:
  "fst (get_random_float
          (toy_prims\<lparr>randrange := \<lambda>lo hi g. (99999999999999999, Suc g)\<rparr>) (0::nat)) = Inr 1 \<and>
   0 < (of_int (99999999999999999 - 1) / 10 ^ length (str_int 99999999999999999) :: rat) \<and>
   (of_int (99999999999999999 - 1) / 10 ^ length (str_int 99999999999999999) :: rat) < 1"
  using get_random_float_reaches_one
    [of "toy_prims\<lparr>randrange := \<lambda>lo hi g. (99999999999999999, Suc g)\<rparr>" "0::nat"
        99999999999999999]
  by (simp add: toy_prims_def)

end
